theory Spec2Isabelle
  imports Main "HOL-Library.Product_Lexorder"
begin

section \<open>Python values used by \<^verbatim>\<open>analyzer.py\<close>\<close>

text \<open>
  A Python \<^verbatim>\<open>str\<close> is modelled as a \<^typ>\<open>string\<close>; a \<^typ>\<open>char\<close> stands for a code
  point below 256, which covers every character the analyzer treats specially
  (\<^verbatim>\<open>:\<close>, \<^verbatim>\<open>;\<close>, the two quotes, the backslash and white space).  Exceptions are
  values of the type \<open>error\<close>; a function that may raise returns \<open>error + 'a\<close>
  with \<open>Inl\<close> for the exception.
\<close>

datatype error =
    ValueError string
  | FileNotFoundError string
  | AttributeError string
  | IndexError string
  | OSError string

subsection \<open>\<^verbatim>\<open>str\<close> methods\<close>

text \<open>\<^verbatim>\<open>str.isspace\<close> on one character (code points below 256).\<close>

definition py_isspace :: "char \<Rightarrow> bool" where
  "py_isspace c =
     (of_char c \<in> {9, 10, 11, 12, 13, 28, 29, 30, 31, 32, 133, 160 :: nat})"

text \<open>\<^verbatim>\<open>s.strip()\<close>\<close>

definition py_strip :: "string \<Rightarrow> string" where
  "py_strip s = rev (dropWhile py_isspace (rev (dropWhile py_isspace s)))"

text \<open>\<^verbatim>\<open>s.split()\<close>: the maximal runs of characters that are not white space.
  The first argument is the word being collected.\<close>

fun split_ws :: "string \<Rightarrow> string \<Rightarrow> string list" where
  "split_ws cur [] = (if cur = [] then [] else [cur])"
| "split_ws cur (c # cs) =
     (if py_isspace c
      then (if cur = [] then split_ws [] cs else cur # split_ws [] cs)
      else split_ws (cur @ [c]) cs)"

definition py_split :: "string \<Rightarrow> string list" where
  "py_split s = split_ws [] s"

text \<open>\<^verbatim>\<open>s.split(sep)\<close> for a separator of one character: never empty, one more
  part than there are separators.\<close>

fun py_split_on :: "char \<Rightarrow> string \<Rightarrow> string list" where
  "py_split_on sep [] = [[]]"
| "py_split_on sep (c # cs) =
     (if c = sep then [] # py_split_on sep cs
      else (case py_split_on sep cs of
              [] \<Rightarrow> [[c]]
            | p # ps \<Rightarrow> (c # p) # ps))"

text \<open>\<^verbatim>\<open>sep.join(parts)\<close>\<close>

fun py_join :: "string \<Rightarrow> string list \<Rightarrow> string" where
  "py_join sep [] = []"
| "py_join sep [p] = p"
| "py_join sep (p # q # ps) = p @ sep @ py_join sep (q # ps)"

text \<open>\<^verbatim>\<open>s.startswith(p)\<close>\<close>

definition startswith :: "string \<Rightarrow> string \<Rightarrow> bool" where
  "startswith s p = (take (length p) s = p)"

subsection \<open>\<^verbatim>\<open>int(s)\<close>\<close>

definition is_digit :: "char \<Rightarrow> bool" where
  "is_digit c = (48 \<le> (of_char c :: nat) \<and> (of_char c :: nat) \<le> 57)"

definition digit_val :: "char \<Rightarrow> int" where
  "digit_val c = int (of_char c) - 48"

text \<open>The digits of a decimal literal: a digit first, then digits, each optionally
  preceded by one underscore.\<close>

fun digits_ok :: "string \<Rightarrow> bool" where
  "digits_ok [] = False"
| "digits_ok [c] = is_digit c"
| "digits_ok (c # d # cs) =
     (is_digit c \<and>
      (if d = CHR ''_'' then digits_ok cs else digits_ok (d # cs)))"

definition digits_value :: "string \<Rightarrow> int" where
  "digits_value s =
     foldl (\<lambda>acc c. 10 * acc + digit_val c) 0 (filter (\<lambda>c. c \<noteq> CHR ''_'') s)"

text \<open>\<^verbatim>\<open>repr(s)\<close>, which the message of \<^verbatim>\<open>int\<close> quotes: the quote is the double
  one when the string holds a single quote and no double one; the quote, the backslash
  and the characters that are not printable are escaped.\<close>

definition py_printable :: "char \<Rightarrow> bool" where
  "py_printable c =
     (let n = (of_char c :: nat) in (32 \<le> n \<and> n < 127) \<or> (161 \<le> n \<and> n \<noteq> 173))"

definition hex_digit :: "nat \<Rightarrow> char" where
  "hex_digit n = ''0123456789abcdef'' ! n"

definition repr_char :: "char \<Rightarrow> char \<Rightarrow> string" where
  "repr_char quote c =
     (if c = quote \<or> c = CHR 0x5C then [CHR 0x5C, c]
      else if c = CHR 0x09 then [CHR 0x5C, CHR ''t'']
      else if c = CHR 0x0A then [CHR 0x5C, CHR ''n'']
      else if c = CHR 0x0D then [CHR 0x5C, CHR ''r'']
      else if py_printable c then [c]
      else [CHR 0x5C, CHR ''x'', hex_digit (of_char c div 16), hex_digit (of_char c mod 16)])"

definition py_repr :: "string \<Rightarrow> string" where
  "py_repr s =
     (let quote = (if CHR 0x27 \<in> set s \<and> CHR 0x22 \<notin> set s then CHR 0x22 else CHR 0x27)
      in [quote] @ concat (map (repr_char quote) s) @ [quote])"

text \<open>\<^verbatim>\<open>str(n)\<close> for a natural number.\<close>

function show_nat :: "nat \<Rightarrow> string" where
  "show_nat n =
     (if n < 10 then [hex_digit n] else show_nat (n div 10) @ [hex_digit (n mod 10)])"
  by pat_completeness auto
termination
  by (relation "measure (\<lambda>n. n)") auto

declare show_nat.simps [simp del]

text \<open>The white space \<^verbatim>\<open>int\<close> skips at both ends: tab, line feed, vertical tab, form
  feed, carriage return and space, and the two white space characters from 128 on
  (U+0085 and U+00A0); not U+001C to U+001F, which \<^verbatim>\<open>str.strip\<close> removes.\<close>

definition int_isspace :: "char \<Rightarrow> bool" where
  "int_isspace c = (of_char c \<in> {9, 10, 11, 12, 13, 32, 133, 160 :: nat})"

definition int_strip :: "string \<Rightarrow> string" where
  "int_strip s = rev (dropWhile int_isspace (rev (dropWhile int_isspace s)))"

text \<open>\<^verbatim>\<open>int(s)\<close> in base 10 (CPython 3.11): white space is skipped at both ends and
  one sign is allowed; then the run of digits and underscores is read.  A run that
  is not a decimal literal raises \<^verbatim>\<open>ValueError\<close>; so does one of more than 4300
  digits, the default limit; so does anything left after the run.\<close>

definition py_int :: "string \<Rightarrow> error + int" where
  "py_int s =
     (let t = int_strip s;
          neg = (t \<noteq> [] \<and> hd t = CHR ''-'');
          body = (if t \<noteq> [] \<and> (hd t = CHR ''-'' \<or> hd t = CHR ''+'') then tl t else t);
          run = takeWhile (\<lambda>c. is_digit c \<or> c = CHR ''_'') body;
          rest = dropWhile (\<lambda>c. is_digit c \<or> c = CHR ''_'') body;
          digits = length (filter is_digit run);
          invalid = Inl (ValueError (''invalid literal for int() with base 10: '' @ py_repr s))
      in if \<not> digits_ok run then invalid
         else if digits > 4300
         then Inl (ValueError
                (''Exceeds the limit (4300 digits) for integer string conversion: value has ''
                 @ show_nat digits
                 @ '' digits; use sys.set_int_max_str_digits() to increase the limit''))
         else if rest \<noteq> [] then invalid
         else Inr (if neg then - digits_value run else digits_value run))"

subsection \<open>\<^verbatim>\<open>datetime\<close>\<close>

text \<open>A naive \<^verbatim>\<open>datetime\<close> is its seven fields.  Two of them are compared as the
  tuples of their fields, lexicographically, as \<^verbatim>\<open>datetime.__lt__\<close> does.\<close>

record datetime =
  dt_year :: int
  dt_month :: int
  dt_day :: int
  dt_hour :: int
  dt_minute :: int
  dt_second :: int
  dt_microsecond :: int

definition dt_fields :: "datetime \<Rightarrow> int \<times> int \<times> int \<times> int \<times> int \<times> int \<times> int" where
  "dt_fields t =
     (dt_year t, dt_month t, dt_day t, dt_hour t, dt_minute t, dt_second t,
      dt_microsecond t)"

definition dt_less :: "datetime \<Rightarrow> datetime \<Rightarrow> bool" where
  "dt_less a b = (dt_fields a < dt_fields b)"

text \<open>\<^verbatim>\<open>datetime.max\<close>\<close>

definition datetime_max :: datetime where
  "datetime_max =
     \<lparr>dt_year = 9999, dt_month = 12, dt_day = 31, dt_hour = 23, dt_minute = 59,
      dt_second = 59, dt_microsecond = 999999\<rparr>"

text \<open>The calendar arithmetic of the \<^verbatim>\<open>datetime\<close> module: \<^verbatim>\<open>_is_leap\<close>,
  \<^verbatim>\<open>_days_before_year\<close>, \<^verbatim>\<open>_days_before_month\<close>, \<^verbatim>\<open>toordinal\<close>, \<^verbatim>\<open>weekday\<close>
  (Monday is 0) and \<^verbatim>\<open>timetuple().tm_yday\<close>.\<close>

definition is_leap :: "int \<Rightarrow> bool" where
  "is_leap y = (y mod 4 = 0 \<and> (y mod 100 \<noteq> 0 \<or> y mod 400 = 0))"

definition days_before_year :: "int \<Rightarrow> int" where
  "days_before_year y =
     (let y1 = y - 1 in y1 * 365 + y1 div 4 - y1 div 100 + y1 div 400)"

definition DAYS_BEFORE_MONTH :: "int list" where
  "DAYS_BEFORE_MONTH = [- 1, 0, 31, 59, 90, 120, 151, 181, 212, 243, 273, 304, 334]"

definition days_before_month :: "int \<Rightarrow> int \<Rightarrow> int" where
  "days_before_month y m =
     DAYS_BEFORE_MONTH ! nat m + (if m > 2 \<and> is_leap y then 1 else 0)"

definition toordinal :: "datetime \<Rightarrow> int" where
  "toordinal t =
     days_before_year (dt_year t) + days_before_month (dt_year t) (dt_month t) + dt_day t"

definition weekday :: "datetime \<Rightarrow> int" where
  "weekday t = (toordinal t + 6) mod 7"

definition tm_yday :: "datetime \<Rightarrow> int" where
  "tm_yday t = days_before_month (dt_year t) (dt_month t) + dt_day t"

section \<open>The tokenizer\<close>

subsection \<open>\<^verbatim>\<open>shlex.split\<close>\<close>

text \<open>
  \<^verbatim>\<open>shlex.split(s)\<close> runs the lexer of the standard library in POSIX mode with
  \<^verbatim>\<open>whitespace_split = True\<close> and no comment characters.  The lexer's \<^verbatim>\<open>state\<close> is
  \<^verbatim>\<open>None\<close> past the end of the input, \<^verbatim>\<open>' '\<close> between tokens, \<^verbatim>\<open>'a'\<close> inside a
  word, a quote character inside a quotation, or the escape character after a
  backslash.
\<close>

datatype lex_state = St_None | St_Space | St_Word | St_Quote char | St_Escape char

definition shlex_whitespace :: "char \<Rightarrow> bool" where
  "shlex_whitespace c = (c = CHR '' '' \<or> c = CHR 0x09 \<or> c = CHR 0x0D \<or> c = CHR 0x0A)"

definition shlex_quotes :: "char \<Rightarrow> bool" where
  "shlex_quotes c = (c = CHR 0x27 \<or> c = CHR 0x22)"

definition shlex_escape :: "char \<Rightarrow> bool" where
  "shlex_escape c = (c = CHR 0x5C)"

definition shlex_escapedquotes :: "char \<Rightarrow> bool" where
  "shlex_escapedquotes c = (c = CHR 0x22)"

definition shlex_wordchars :: "char \<Rightarrow> bool" where
  "shlex_wordchars c =
     (let n = (of_char c :: nat) in
        (97 \<le> n \<and> n \<le> 122) \<or> (65 \<le> n \<and> n \<le> 90) \<or> (48 \<le> n \<and> n \<le> 57) \<or> n = 95 \<or>
        (192 \<le> n \<and> n \<le> 214) \<or> (216 \<le> n \<and> n \<le> 246) \<or> (248 \<le> n \<and> n \<le> 255))"

text \<open>The end of \<^verbatim>\<open>read_token\<close>: the token, or \<^verbatim>\<open>None\<close> for an empty token that was
  not quoted; with it the lexer's state and the input left.\<close>

definition emit ::
  "string \<Rightarrow> bool \<Rightarrow> lex_state \<Rightarrow> string \<Rightarrow> error + (string option \<times> lex_state \<times> string)" where
  "emit tok quoted st rest = Inr (if \<not> quoted \<and> tok = [] then None else Some tok, st, rest)"

text \<open>\<^verbatim>\<open>read_token\<close>: the arguments are \<^verbatim>\<open>self.state\<close>, \<^verbatim>\<open>escapedstate\<close>,
  \<^verbatim>\<open>quoted\<close>, \<^verbatim>\<open>self.token\<close> and the input not yet read.  Each turn of the loop
  reads one character; the empty input is the end of file.\<close>

fun read_token ::
  "lex_state \<Rightarrow> lex_state \<Rightarrow> bool \<Rightarrow> string \<Rightarrow> string
     \<Rightarrow> error + (string option \<times> lex_state \<times> string)" where
  "read_token St_None esc quoted tok [] = emit [] quoted St_None []"
| "read_token St_Space esc quoted tok [] = emit tok quoted St_None []"
| "read_token (St_Quote q) esc quoted tok [] = Inl (ValueError ''No closing quotation'')"
| "read_token (St_Escape e) esc quoted tok [] = Inl (ValueError ''No escaped character'')"
| "read_token St_Word esc quoted tok [] = emit tok quoted St_None []"
| "read_token St_None esc quoted tok (c # cs) = emit [] quoted St_None cs"
| "read_token St_Space esc quoted tok (c # cs) =
     (if shlex_whitespace c
      then (if tok \<noteq> [] \<or> quoted then emit tok quoted St_Space cs
            else read_token St_Space esc quoted tok cs)
      else if shlex_escape c then read_token (St_Escape c) St_Word quoted tok cs
      else if shlex_wordchars c then read_token St_Word esc quoted [c] cs
      else if shlex_quotes c then read_token (St_Quote c) esc quoted tok cs
      else read_token St_Word esc quoted [c] cs)"
| "read_token (St_Quote q) esc quoted tok (c # cs) =
     (if c = q then read_token St_Word esc True tok cs
      else if shlex_escape c \<and> shlex_escapedquotes q
           then read_token (St_Escape c) (St_Quote q) True tok cs
      else read_token (St_Quote q) esc True (tok @ [c]) cs)"
| "read_token (St_Escape e) esc quoted tok (c # cs) =
     read_token esc esc quoted
       ((if (\<exists>q. esc = St_Quote q) \<and> c \<noteq> e \<and> esc \<noteq> St_Quote c then tok @ [e] else tok) @ [c])
       cs"
| "read_token St_Word esc quoted tok (c # cs) =
     (if shlex_whitespace c
      then (if tok \<noteq> [] \<or> quoted then emit tok quoted St_Space cs
            else read_token St_Space esc quoted tok cs)
      else if shlex_quotes c then read_token (St_Quote c) esc quoted tok cs
      else if shlex_escape c then read_token (St_Escape c) St_Word quoted tok cs
      else read_token St_Word esc quoted (tok @ [c]) cs)"

lemma read_token_rest_le:
  "read_token st esc quoted tok inp = Inr (r, st', rest) \<Longrightarrow> length rest \<le> length inp"
  by (induction st esc quoted tok inp rule: read_token.induct)
     (auto simp: emit_def split: if_splits)

lemma read_token_rest_less:
  assumes "read_token st St_Space False [] inp = Inr (Some t, st', rest)"
  shows "length rest < length inp"
proof (cases inp)
  case Nil
  with assms show ?thesis by (cases st) (auto simp: emit_def)
next
  case (Cons c cs)
  with assms have "length rest \<le> length cs"
    by (cases st) (auto simp: emit_def split: if_splits dest: read_token_rest_le)
  with Cons show ?thesis by simp
qed

text \<open>\<^verbatim>\<open>list(lex)\<close>: tokens are read until \<^verbatim>\<open>read_token\<close> gives \<^verbatim>\<open>None\<close>.\<close>

function shlex_tokens :: "lex_state \<Rightarrow> string \<Rightarrow> error + string list" where
  "shlex_tokens st inp =
     (case read_token st St_Space False [] inp of
        Inl e \<Rightarrow> Inl e
      | Inr (None, st', rest) \<Rightarrow> Inr []
      | Inr (Some t, st', rest) \<Rightarrow>
          (case shlex_tokens st' rest of
             Inl e \<Rightarrow> Inl e
           | Inr ts \<Rightarrow> Inr (t # ts)))"
  by pat_completeness auto
termination
  by (relation "measure (\<lambda>(st, inp). length inp)") (auto dest: read_token_rest_less)

declare shlex_tokens.simps [simp del]

definition shlex_split :: "string \<Rightarrow> error + string list" where
  "shlex_split s = shlex_tokens St_Space s"

subsection \<open>\<^verbatim>\<open>_safe_split_command\<close>\<close>

text \<open>\<^verbatim>\<open>re.sub(r'(\'[^\']*|"[^"]*)', '', command)\<close>: every match, found from left to
  right, is deleted.  A match starts at a quote character and runs over the characters
  that follow and differ from that quote.\<close>

function re_sub_quotes :: "string \<Rightarrow> string" where
  "re_sub_quotes [] = []"
| "re_sub_quotes (c # cs) =
     (if c = CHR 0x27 then re_sub_quotes (dropWhile (\<lambda>x. x \<noteq> CHR 0x27) cs)
      else if c = CHR 0x22 then re_sub_quotes (dropWhile (\<lambda>x. x \<noteq> CHR 0x22) cs)
      else c # re_sub_quotes cs)"
  by pat_completeness auto
termination
  by (relation "measure length") (auto simp: length_dropWhile_le less_Suc_eq_le)

text \<open>\<^verbatim>\<open>_safe_split_command\<close> (lines 68 to 77): the handler catches \<^verbatim>\<open>ValueError\<close>
  only.\<close>

definition safe_split_command :: "string \<Rightarrow> error + string list" where
  "safe_split_command command =
     (case shlex_split command of
        Inr parts \<Rightarrow> Inr parts
      | Inl (ValueError msg) \<Rightarrow> Inr (py_split (re_sub_quotes command))
      | Inl e \<Rightarrow> Inl e)"

section \<open>The history parsers\<close>

text \<open>
  A generator is the list of the records it yields, in order, with the exception that
  ends it, if one does.  The lines of the history file are the strings that iterating
  over the open file gives, each with its line end.  \<^verbatim>\<open>datetime.fromtimestamp\<close>
  depends on the local time zone and is a parameter; it raises on an epoch that is out
  of range.
\<close>

type_synonym history_record = "string \<times> datetime"
type_synonym generator = "history_record list \<times> error option"

text \<open>\<^verbatim>\<open>_parse_zsh_history\<close> (lines 47 to 55), after the file is open.\<close>

fun parse_zsh_lines :: "(int \<Rightarrow> error + datetime) \<Rightarrow> string list \<Rightarrow> generator" where
  "parse_zsh_lines fromtimestamp [] = ([], None)"
| "parse_zsh_lines fromtimestamp (line # rest) =
     (if startswith line '':''
      then (let parts = py_split_on CHR '';'' line in
            if length parts \<ge> 3
            then (case py_int (parts ! 1) of
                    Inl e \<Rightarrow> ([], Some e)
                  | Inr n \<Rightarrow>
                     (case fromtimestamp n of
                        Inl e \<Rightarrow> ([], Some e)
                      | Inr timestamp \<Rightarrow>
                         (let command = py_strip (py_join '';'' (drop 2 parts));
                              (records, err) = parse_zsh_lines fromtimestamp rest
                          in ((command, timestamp) # records, err))))
            else parse_zsh_lines fromtimestamp rest)
      else parse_zsh_lines fromtimestamp rest)"

text \<open>\<^verbatim>\<open>_parse_bash_history\<close> (lines 40 to 45), after the file is open.  Every
  record is stamped with \<^verbatim>\<open>datetime.now()\<close>: \<open>clock k\<close> is the value of the call
  number \<open>k\<close> of the run.\<close>

fun parse_bash_lines :: "(nat \<Rightarrow> datetime) \<Rightarrow> nat \<Rightarrow> string list \<Rightarrow> history_record list" where
  "parse_bash_lines clock k [] = []"
| "parse_bash_lines clock k (line # rest) =
     (let line' = py_strip line in
      if line' \<noteq> [] then (line', clock k) # parse_bash_lines clock (Suc k) rest
      else parse_bash_lines clock k rest)"

text \<open>What the program reads from outside: \<^verbatim>\<open>os.path.expanduser\<close>,
  \<^verbatim>\<open>os.path.exists\<close>, a file, the clock and \<^verbatim>\<open>datetime.fromtimestamp\<close>.
  Reading a file is the exception of \<^verbatim>\<open>open\<close>, or the lines that the iteration
  over the open file gives, one at a time, with the exception that ends the iteration
  early, if one does (a byte that cannot be decoded).\<close>

record env =
  expanduser :: "string \<Rightarrow> string"
  path_exists :: "string \<Rightarrow> bool"
  read_lines :: "string \<Rightarrow> error + string list \<times> error option"
  now :: "nat \<Rightarrow> datetime"
  fromtimestamp :: "int \<Rightarrow> error + datetime"

definition parse_bash_history :: "env \<Rightarrow> nat \<Rightarrow> string \<Rightarrow> generator" where
  "parse_bash_history env k history_file =
     (case read_lines env history_file of
        Inl e \<Rightarrow> ([], Some e)
      | Inr (lines, read_error) \<Rightarrow> (parse_bash_lines (now env) k lines, read_error))"

definition parse_zsh_history :: "env \<Rightarrow> nat \<Rightarrow> string \<Rightarrow> generator" where
  "parse_zsh_history env k history_file =
     (case read_lines env history_file of
        Inl e \<Rightarrow> ([], Some e)
      | Inr (lines, read_error) \<Rightarrow>
          (case parse_zsh_lines (fromtimestamp env) lines of
             (records, Some e) \<Rightarrow> (records, Some e)
           | (records, None) \<Rightarrow> (records, read_error)))"

text \<open>The table \<^verbatim>\<open>history_files\<close> with its \<^verbatim>\<open>get\<close>, and \<^verbatim>\<open>getattr\<close> on the
  analyzer for the name of a parse method: the class has two.\<close>

definition history_files :: "env \<Rightarrow> string \<Rightarrow> string option" where
  "history_files env shell =
     (if shell = ''bash'' then Some (expanduser env ''~/.bash_history'')
      else if shell = ''zsh'' then Some (expanduser env ''~/.zsh_history'')
      else if shell = ''fish'' then Some (expanduser env ''~/.local/share/fish/fish_history'')
      else None)"

definition getattr :: "string \<Rightarrow> error + (env \<Rightarrow> nat \<Rightarrow> string \<Rightarrow> generator)" where
  "getattr name =
     (if name = ''_parse_bash_history'' then Inr parse_bash_history
      else if name = ''_parse_zsh_history'' then Inr parse_zsh_history
      else Inl (AttributeError name))"

text \<open>\<^verbatim>\<open>parse_shell_history\<close> (lines 25 to 38).  \<^verbatim>\<open>not history_file\<close> holds for
  \<^verbatim>\<open>None\<close> and for the empty path.\<close>

definition parse_shell_history :: "env \<Rightarrow> nat \<Rightarrow> string \<Rightarrow> error + generator" where
  "parse_shell_history env k shell =
     (let history_file = history_files env shell in
      if history_file = None \<or> history_file = Some [] \<or> \<not> path_exists env (the history_file)
      then Inl (FileNotFoundError (''History file not found for '' @ shell))
      else (case getattr (''_parse_'' @ shell @ ''_history'') of
              Inl e \<Rightarrow> Inl e
            | Inr parse_method \<Rightarrow> Inr (parse_method env k (the history_file))))"

section \<open>The aggregate state\<close>

text \<open>
  A \<^verbatim>\<open>dict\<close> iterates in the order its keys were inserted, and the report depends
  on that order, so a dictionary is the list of its items in insertion order.
  \<open>dd_update d f k\<close> is \<^verbatim>\<open>m[k] = f(m[k])\<close> on a \<^verbatim>\<open>defaultdict\<close> with default \<open>d\<close>:
  a key that is present keeps its place, a new key goes to the end.
\<close>

fun dd_update :: "'v \<Rightarrow> ('v \<Rightarrow> 'v) \<Rightarrow> 'k \<Rightarrow> ('k \<times> 'v) list \<Rightarrow> ('k \<times> 'v) list" where
  "dd_update d f k [] = [(k, f d)]"
| "dd_update d f k ((k', v) # kvs) =
     (if k' = k then (k', f v) # kvs else (k', v) # dd_update d f k kvs)"

definition incr :: "'k \<Rightarrow> ('k \<times> int) list \<Rightarrow> ('k \<times> int) list" where
  "incr k m = dd_update 0 (\<lambda>v. v + 1) k m"

record month_data =
  count :: int
  commands :: "(string \<times> int) list"

record command_data =
  total_commands :: int
  unique_commands :: "string set"
  commands_by_month :: "(int \<times> month_data) list"
  commands_by_weekday :: "(int \<times> int) list"
  commands_by_hour :: "(int \<times> int) list"
  commands_by_day :: "(int \<times> int) list"
  total_command_count :: "(string \<times> int) list"
  first_command :: "string option"
  first_command_time :: datetime

text \<open>\<^verbatim>\<open>HistoryAnalyzer.__init__\<close> (lines 11 to 23): the initial \<^verbatim>\<open>command_data\<close>,
  and \<^verbatim>\<open>year or datetime.now().year\<close>, which reads the clock when the argument is
  \<^verbatim>\<open>None\<close> or 0.  The second component is the number of clock readings so far.\<close>

definition init_command_data :: command_data where
  "init_command_data =
     \<lparr>total_commands = 0, unique_commands = {}, commands_by_month = [],
      commands_by_weekday = [], commands_by_hour = [], commands_by_day = [],
      total_command_count = [], first_command = None,
      first_command_time = datetime_max\<rparr>"

definition init_year :: "env \<Rightarrow> int option \<Rightarrow> int \<times> nat" where
  "init_year env year =
     (case year of
        None \<Rightarrow> (dt_year (now env 0), 1)
      | Some y \<Rightarrow> if y = 0 then (dt_year (now env 0), 1) else (y, 0))"

section \<open>The aggregator\<close>

text \<open>What the program prints, one value for each \<^verbatim>\<open>print\<close> call: the warning of
  \<^verbatim>\<open>_process_command\<close> and the lines of the report, in the order of their \<^verbatim>\<open>print\<close>
  statements in the source.\<close>

datatype line =
    ErrorProcessing string error
  | Header int
  | TotalCommands int
  | UniqueCommands nat
  | MostUsedHeading
  | CommandTimes string int
  | ActiveMonthsHeading
  | MonthCommands string int
  | TopCommandsHeading
  | MonthHeading string
  | MonthCommandTimes string int
  | MostActiveDay string
  | MostActiveHour int

text \<open>\<^verbatim>\<open>_process_command\<close> (lines 79 to 113).  The only call of the \<^verbatim>\<open>try\<close> block
  that can raise is the tokenizer, before any update, so the handler finds the state
  as it was.\<close>

definition process_command :: "command_data \<Rightarrow> string \<Rightarrow> datetime \<Rightarrow> command_data \<times> line list" where
  "process_command cd command timestamp =
     (case safe_split_command command of
        Inl e \<Rightarrow> (cd, [ErrorProcessing command e])
      | Inr cmd_parts \<Rightarrow>
          (case cmd_parts of
             [] \<Rightarrow> (cd, [])
           | base_command # _ \<Rightarrow>
               (let cd1 = cd\<lparr>total_commands := total_commands cd + 1,
                              unique_commands := insert base_command (unique_commands cd),
                              total_command_count := incr base_command (total_command_count cd)\<rparr>;
                    cd2 = (if dt_less timestamp (first_command_time cd1)
                           then cd1\<lparr>first_command := Some command,
                                    first_command_time := timestamp\<rparr>
                           else cd1);
                    cd3 = cd2\<lparr>commands_by_month :=
                             dd_update \<lparr>count = 0, commands = []\<rparr>
                               (\<lambda>month_data. month_data\<lparr>count := count month_data + 1,
                                   commands := incr base_command (commands month_data)\<rparr>)
                               (dt_month timestamp) (commands_by_month cd2)\<rparr>;
                    cd4 = cd3\<lparr>commands_by_weekday := incr (weekday timestamp) (commands_by_weekday cd3),
                              commands_by_hour := incr (dt_hour timestamp) (commands_by_hour cd3),
                              commands_by_day := incr (tm_yday timestamp) (commands_by_day cd3)\<rparr>
                in (cd4, []))))"

text \<open>The loop of \<^verbatim>\<open>analyze_commands\<close> (lines 61 to 66) over the records a generator
  yields, and \<^verbatim>\<open>analyze_commands\<close> itself (lines 57 to 66): an exception of
  \<^verbatim>\<open>parse_shell_history\<close> or of the generator leaves through it, after the records
  yielded before it were processed.\<close>

fun analyze_loop :: "int \<Rightarrow> command_data \<Rightarrow> history_record list \<Rightarrow> command_data \<times> line list" where
  "analyze_loop year cd [] = (cd, [])"
| "analyze_loop year cd ((command, timestamp) # rest) =
     (if dt_year timestamp \<noteq> year then analyze_loop year cd rest
      else (let (cd', out) = process_command cd command timestamp;
                (cd'', out') = analyze_loop year cd' rest
            in (cd'', out @ out')))"

definition analyze_commands ::
  "env \<Rightarrow> nat \<Rightarrow> int \<Rightarrow> command_data \<Rightarrow> string \<Rightarrow> command_data \<times> line list \<times> error option" where
  "analyze_commands env k year cd shell =
     (case parse_shell_history env k shell of
        Inl e \<Rightarrow> (cd, [], Some e)
      | Inr (records, err) \<Rightarrow>
          (let (cd', out) = analyze_loop year cd records in (cd', out, err)))"

section \<open>The report generator\<close>

text \<open>\<^verbatim>\<open>sorted(xs, key=f, reverse=True)\<close> is stable: items with equal keys keep their
  order.  \<^verbatim>\<open>max(xs, key=f)\<close> is the first item whose key no later item exceeds, and
  raises on the empty sequence.  \<^verbatim>\<open>xs[i]\<close> counts a negative index from the end.\<close>

definition sorted_reverse :: "('a \<Rightarrow> int) \<Rightarrow> 'a list \<Rightarrow> 'a list" where
  "sorted_reverse f xs = sort_key (\<lambda>x. - f x) xs"

fun max_by :: "('a \<Rightarrow> int) \<Rightarrow> 'a list \<Rightarrow> error + 'a" where
  "max_by f [] = Inl (ValueError ''max() arg is an empty sequence'')"
| "max_by f (x # xs) = Inr (foldl (\<lambda>best y. if f y > f best then y else best) x xs)"

definition py_index :: "'a list \<Rightarrow> int \<Rightarrow> error + 'a" where
  "py_index xs i =
     (if 0 \<le> i \<and> i < int (length xs) then Inr (xs ! nat i)
      else if i < 0 \<and> - int (length xs) \<le> i then Inr (xs ! nat (int (length xs) + i))
      else Inl (IndexError ''list index out of range''))"

definition month_names :: "string list" where
  "month_names =
     [''January'', ''February'', ''March'', ''April'', ''May'', ''June'',
      ''July'', ''August'', ''September'', ''October'', ''November'', ''December'']"

definition weekdays :: "string list" where
  "weekdays =
     [''Monday'', ''Tuesday'', ''Wednesday'', ''Thursday'', ''Friday'', ''Saturday'',
      ''Sunday'']"

text \<open>Printing is the list of lines printed and the exception that stopped it, if
  any; \<open>seq\<close> runs a second part after a first that raised nothing.\<close>

type_synonym printed = "line list \<times> error option"

definition seq :: "printed \<Rightarrow> printed \<Rightarrow> printed" where
  "seq a b =
     (case a of
        (out, Some e) \<Rightarrow> (out, Some e)
      | (out, None) \<Rightarrow> (out @ fst b, snd b))"

text \<open>The two loops over \<^verbatim>\<open>active_months\<close> (lines 144 to 145 and 149 to 157).\<close>

fun print_active_months :: "(int \<times> month_data) list \<Rightarrow> printed" where
  "print_active_months [] = ([], None)"
| "print_active_months ((month, data) # rest) =
     (case py_index month_names (month - 1) of
        Inl e \<Rightarrow> ([], Some e)
      | Inr name \<Rightarrow> seq ([MonthCommands name (count data)], None) (print_active_months rest))"

fun print_top_months :: "(int \<times> month_data) list \<Rightarrow> printed" where
  "print_top_months [] = ([], None)"
| "print_top_months ((month, data) # rest) =
     (let month_top_commands = take 3 (sorted_reverse snd (commands data)) in
      case py_index month_names (month - 1) of
        Inl e \<Rightarrow> ([], Some e)
      | Inr name \<Rightarrow>
          seq (MonthHeading name # map (\<lambda>(cmd, n). MonthCommandTimes cmd n) month_top_commands,
               None)
              (print_top_months rest))"

text \<open>The most active weekday and hour (lines 161 to 164 and 168 to 171).\<close>

definition most_active_weekday :: "command_data \<Rightarrow> error + int" where
  "most_active_weekday cd =
     (case max_by snd (commands_by_weekday cd) of
        Inl e \<Rightarrow> Inl e
      | Inr item \<Rightarrow> Inr (fst item))"

definition most_active_hour :: "command_data \<Rightarrow> error + int" where
  "most_active_hour cd =
     (case max_by snd (commands_by_hour cd) of
        Inl e \<Rightarrow> Inl e
      | Inr item \<Rightarrow> Inr (fst item))"

definition print_most_active_day :: "command_data \<Rightarrow> printed" where
  "print_most_active_day cd =
     (case most_active_weekday cd of
        Inl e \<Rightarrow> ([], Some e)
      | Inr d \<Rightarrow>
          (case py_index weekdays d of
             Inl e \<Rightarrow> ([], Some e)
           | Inr name \<Rightarrow> ([MostActiveDay name], None)))"

definition print_most_active_hour :: "command_data \<Rightarrow> printed" where
  "print_most_active_hour cd =
     (case most_active_hour cd of
        Inl e \<Rightarrow> ([], Some e)
      | Inr h \<Rightarrow> ([MostActiveHour h], None))"

text \<open>\<^verbatim>\<open>generate_report\<close> (lines 115 to 172).\<close>

definition generate_report :: "int \<Rightarrow> command_data \<Rightarrow> printed" where
  "generate_report year cd =
     (let top_commands = take 10 (sorted_reverse snd (total_command_count cd));
          active_months = take 3 (sorted_reverse (\<lambda>x. count (snd x)) (commands_by_month cd))
      in seq ([Header year, TotalCommands (total_commands cd),
               UniqueCommands (card (unique_commands cd)), MostUsedHeading]
              @ map (\<lambda>(cmd, n). CommandTimes cmd n) top_commands
              @ [ActiveMonthsHeading], None)
        (seq (print_active_months active_months)
        (seq ([TopCommandsHeading], None)
        (seq (print_top_months active_months)
        (seq (print_most_active_day cd)
             (print_most_active_hour cd))))))"

section \<open>The program\<close>

text \<open>\<^verbatim>\<open>main\<close> (lines 174 to 183) on the parsed arguments \<^verbatim>\<open>--year\<close> and
  \<^verbatim>\<open>--shell\<close>: what is printed on standard output and the exception that ended the
  run, if any.  The interpreter exits with status 1 on an exception that nothing
  caught, with 0 otherwise.\<close>

definition main :: "env \<Rightarrow> int option \<Rightarrow> string \<Rightarrow> printed" where
  "main env year_arg shell =
     (let (year, k) = init_year env year_arg in
      case analyze_commands env k year init_command_data shell of
        (cd, out, Some e) \<Rightarrow> (out, Some e)
      | (cd, out, None) \<Rightarrow> seq (out, None) (generate_report year cd))"

definition exit_status :: "printed \<Rightarrow> int" where
  "exit_status r = (case snd r of None \<Rightarrow> 0 | Some e \<Rightarrow> 1)"

section \<open>Characters of a command\<close>

text \<open>A character that the lexer of \<^verbatim>\<open>shlex\<close> adds to the word it is reading: not its
  white space, not a quote, not the backslash.\<close>

definition shlex_plain :: "char \<Rightarrow> bool" where
  "shlex_plain c = (\<not> shlex_whitespace c \<and> \<not> shlex_quotes c \<and> \<not> shlex_escape c)"

section \<open>Properties of the aggregate state\<close>

text \<open>A record is counted when its year is the target year and the tokenizer finds a
  base command in it.\<close>

definition counted :: "int \<Rightarrow> history_record \<Rightarrow> bool" where
  "counted year r =
     (dt_year (snd r) = year \<and>
      (case safe_split_command (fst r) of
         Inr (base_command # args) \<Rightarrow> True
       | _ \<Rightarrow> False))"

text \<open>The invariant of the data model: \<^verbatim>\<open>total_commands\<close> is the sum of the values of
  \<^verbatim>\<open>total_command_count\<close>, and \<^verbatim>\<open>unique_commands\<close> is the set of its keys.\<close>

definition totals_consistent :: "command_data \<Rightarrow> bool" where
  "totals_consistent cd =
     (total_commands cd = sum_list (map snd (total_command_count cd)) \<and>
      unique_commands cd = set (map fst (total_command_count cd)))"

text \<open>Position \<open>i\<close> of a list of records holds its earliest record: no record of the
  list is earlier, and every record before position \<open>i\<close> is later.\<close>

definition is_earliest :: "history_record list \<Rightarrow> nat \<Rightarrow> bool" where
  "is_earliest rs i =
     (i < length rs \<and>
      (\<forall>j<length rs. \<not> dt_less (snd (rs ! j)) (snd (rs ! i))) \<and>
      (\<forall>j<i. dt_less (snd (rs ! i)) (snd (rs ! j))))"

text \<open>What the loop keeps in \<^verbatim>\<open>first_command\<close> and \<^verbatim>\<open>first_command_time\<close>: the
  initial values while no record was counted, the earliest counted record after.\<close>

definition tracks_earliest :: "int \<Rightarrow> history_record list \<Rightarrow> bool" where
  "tracks_earliest year records =
     (let cd = fst (analyze_loop year init_command_data records);
          rs = filter (counted year) records
      in (rs = [] \<and> first_command cd = None \<and> first_command_time cd = datetime_max) \<or>
         (\<exists>i. is_earliest rs i \<and> first_command cd = Some (fst (rs ! i)) \<and>
              first_command_time cd = snd (rs ! i)))"

text \<open>Position \<open>i\<close> of a list holds its first maximum under \<open>f\<close>: no item has a
  greater value, and every item before position \<open>i\<close> has a smaller one.\<close>

definition first_max_at :: "('a \<Rightarrow> int) \<Rightarrow> 'a list \<Rightarrow> nat \<Rightarrow> bool" where
  "first_max_at f xs i =
     (i < length xs \<and>
      (\<forall>j<length xs. f (xs ! j) \<le> f (xs ! i)) \<and>
      (\<forall>j<i. f (xs ! j) < f (xs ! i)))"

text \<open>The distinct items of a list in the order of their first occurrence.\<close>

definition first_seen :: "'a list \<Rightarrow> 'a list" where
  "first_seen xs = foldl (\<lambda>seen k. if k \<in> set seen then seen else seen @ [k]) [] xs"

text \<open>A state on which the report has data for every section: the weekday and hour
  buckets are not empty, the months are 1 to 12 and the weekdays 0 to 6.\<close>

definition reportable :: "command_data \<Rightarrow> bool" where
  "reportable cd =
     (commands_by_weekday cd \<noteq> [] \<and> commands_by_hour cd \<noteq> [] \<and>
      list_all (\<lambda>m. 1 \<le> m \<and> m \<le> 12) (map fst (commands_by_month cd)) \<and>
      list_all (\<lambda>d. 0 \<le> d \<and> d < 7) (map fst (commands_by_weekday cd)))"

section \<open>An example environment\<close>

text \<open>For the concrete runs below: a home directory, a choice of which paths exist, a
  history file with the given lines (each gets its line end), a clock at noon of
  2023-11-15, and \<^verbatim>\<open>fromtimestamp\<close> in UTC for the epochs of 2023-11-14, the day of
  epoch 1700000000.\<close>

definition utc_2023_11_14 :: "int \<Rightarrow> error + datetime" where
  "utc_2023_11_14 n =
     (let s = n - 1699920000 in
      if 0 \<le> s \<and> s < 86400
      then Inr \<lparr>dt_year = 2023, dt_month = 11, dt_day = 14, dt_hour = s div 3600,
                dt_minute = s mod 3600 div 60, dt_second = s mod 60, dt_microsecond = 0\<rparr>
      else Inl (OSError ''epoch outside the example day''))"

definition example_env :: "(string \<Rightarrow> bool) \<Rightarrow> string list \<Rightarrow> env" where
  "example_env exists lines =
     \<lparr>expanduser = (\<lambda>p. ''/home/user'' @ drop 1 p),
      path_exists = exists,
      read_lines = (\<lambda>p. Inr (map (\<lambda>l. l @ [CHR 0x0A]) lines, None)),
      now = (\<lambda>k. \<lparr>dt_year = 2023, dt_month = 11, dt_day = 15, dt_hour = 12,
                     dt_minute = 0, dt_second = 0, dt_microsecond = int k\<rparr>),
      fromtimestamp = utc_2023_11_14\<rparr>"

section \<open>The claims\<close>

text \<open>
  C1 (zsh parsing).  The specification's example line \<^verbatim>\<open>:1700000000:0;git status\<close>
  has one \<^verbatim>\<open>;\<close>, so splitting gives two parts and the test \<^verbatim>\<open>len(parts) >= 3\<close>
  drops it: the parser yields no record for it, with or without the line end.  A line
  of the same format whose command holds a \<^verbatim>\<open>;\<close> passes the test, and then the
  timestamp is read from the second part, which is the start of the command: \<^verbatim>\<open>int\<close>
  raises.
\<close>

theorem zsh_spec_line_yields_no_record:
  "parse_zsh_lines ft ['':1700000000:0;git status''] = ([], None) \<and>
   parse_zsh_lines ft ['':1700000000:0;git status'' @ [CHR 0x0A]] = ([], None) \<and>
   parse_zsh_lines ft ['':1700000000:0;echo a;echo b'' @ [CHR 0x0A]] =
     ([], Some (ValueError (''invalid literal for int() with base 10: '' @ [CHR 0x27] @ ''echo a'' @ [CHR 0x27])))"
  by code_simp

subsection \<open>The tokenizer raises nothing\<close>

lemma read_token_error:
  "read_token st esc quoted tok inp = Inl e \<Longrightarrow> \<exists>msg. e = ValueError msg"
  by (induction st esc quoted tok inp rule: read_token.induct)
     (auto simp: emit_def split: if_splits)

lemma shlex_tokens_error:
  "shlex_tokens st inp = Inl e \<Longrightarrow> \<exists>msg. e = ValueError msg"
proof (induction st inp rule: shlex_tokens.induct)
  case (1 st inp)
  show ?case
  proof (cases "read_token st St_Space False [] inp")
    case (Inl e')
    with "1.prems" have "e = e'" by (simp add: shlex_tokens.simps [of st inp])
    with Inl show ?thesis by (auto dest: read_token_error)
  next
    case (Inr r)
    obtain ot st' rest where r: "r = (ot, st', rest)" by (cases r) auto
    show ?thesis
    proof (cases ot)
      case None
      with Inr r "1.prems" show ?thesis by (simp add: shlex_tokens.simps [of st inp])
    next
      case (Some t)
      with Inr r "1.prems" have "shlex_tokens st' rest = Inl e"
        by (simp add: shlex_tokens.simps [of st inp] split: sum.splits)
      with "1.IH" Inr r Some show ?thesis by simp
    qed
  qed
qed

lemma safe_split_command_returns: "\<exists>parts. safe_split_command command = Inr parts"
proof (cases "shlex_split command")
  case (Inl e)
  then obtain msg where "e = ValueError msg"
    unfolding shlex_split_def by (blast dest: shlex_tokens_error)
  with Inl show ?thesis by (simp add: safe_split_command_def)
next
  case (Inr parts)
  then show ?thesis by (simp add: safe_split_command_def)
qed

lemma safe_split_command_fallback:
  "shlex_split command = Inl e \<Longrightarrow>
   safe_split_command command = Inr (py_split (re_sub_quotes command))"
  unfolding shlex_split_def safe_split_command_def
  by (auto dest!: shlex_tokens_error)

lemma read_token_whitespace:
  "list_all shlex_whitespace inp \<Longrightarrow>
   read_token St_Space esc False [] inp = Inr (None, St_None, [])"
  by (induction inp) (auto simp: emit_def)

lemma shlex_split_whitespace:
  "list_all shlex_whitespace command \<Longrightarrow> shlex_split command = Inr []"
  by (simp add: shlex_split_def shlex_tokens.simps [of St_Space command] read_token_whitespace)

lemma re_sub_quotes_after_quote:
  assumes "q = CHR 0x27 \<or> q = CHR 0x22"
  shows "re_sub_quotes (dropWhile (\<lambda>x. x \<noteq> q) cs) = []"
  using assms by (induction cs) auto

lemma re_sub_quotes_prefix:
  "re_sub_quotes command = takeWhile (\<lambda>c. \<not> shlex_quotes c) command"
  by (induction command) (simp_all add: shlex_quotes_def re_sub_quotes_after_quote)

lemma py_strip_all_space:
  assumes "list_all py_isspace s"
  shows "py_strip s = []"
proof -
  from assms have "dropWhile py_isspace s = []"
    unfolding dropWhile_eq_Nil_conv list_all_iff .
  then have "py_strip s = rev (dropWhile py_isspace (rev []))"
    unfolding py_strip_def by (simp only:)
  then show ?thesis by simp
qed

subsection \<open>The invariant of the totals\<close>

lemma sum_incr: "sum_list (map snd (incr k m)) = sum_list (map snd m) + 1"
  unfolding incr_def by (induction m) auto

lemma keys_dd_update:
  "map fst (dd_update d f k m) = (if k \<in> set (map fst m) then map fst m else map fst m @ [k])"
  by (induction m) (fastforce simp: image_iff)+

lemma keys_incr: "set (map fst (incr k m)) = insert k (set (map fst m))"
  unfolding incr_def by (auto simp: keys_dd_update simp del: set_map)

lemma process_command_consistent:
  "totals_consistent cd \<Longrightarrow> totals_consistent (fst (process_command cd command timestamp))"
  by (auto simp: totals_consistent_def process_command_def Let_def sum_incr keys_incr
           simp del: set_map split: sum.splits list.splits)

lemma analyze_loop_consistent:
  "totals_consistent cd \<Longrightarrow> totals_consistent (fst (analyze_loop year cd records))"
proof (induction records arbitrary: cd)
  case Nil
  then show ?case by simp
next
  case (Cons r records)
  obtain command timestamp where r: "r = (command, timestamp)" by (cases r)
  show ?case
  proof (cases "dt_year timestamp = year")
    case False
    with Cons r show ?thesis by simp
  next
    case True
    have "totals_consistent (fst (process_command cd command timestamp))"
      using Cons.prems by (rule process_command_consistent)
    from Cons.IH [OF this] True r show ?thesis
      by (simp add: split_beta Let_def)
  qed
qed

lemma init_consistent: "totals_consistent init_command_data"
  by (simp add: totals_consistent_def init_command_data_def)

text \<open>
  C4 (invariant).  After the loop has processed any sequence of records from the
  initial state, after one more record processed in the state so reached, and at the
  end of \<^verbatim>\<open>analyze_commands\<close> for any shell and environment, \<^verbatim>\<open>total_commands\<close> is
  the sum of the values of \<^verbatim>\<open>total_command_count\<close> and \<^verbatim>\<open>unique_commands\<close> is the set
  of its keys.
\<close>

theorem totals_consistent_after_aggregation:
  "totals_consistent (fst (analyze_loop year init_command_data records)) \<and>
   totals_consistent
     (fst (process_command (fst (analyze_loop year init_command_data records)) command timestamp)) \<and>
   totals_consistent (fst (analyze_commands env k year init_command_data shell))"
proof -
  have loop: "totals_consistent (fst (analyze_loop year init_command_data rs))" for rs
    using init_consistent by (rule analyze_loop_consistent)
  have "totals_consistent (fst (analyze_commands env k year init_command_data shell))"
    using loop init_consistent
    by (auto simp: analyze_commands_def split_beta Let_def split: sum.splits)
  with loop process_command_consistent show ?thesis by blast
qed

subsection \<open>The year filter\<close>

lemma analyze_loop_filter:
  "analyze_loop year cd records =
   analyze_loop year cd (filter (\<lambda>r. dt_year (snd r) = year) records)"
  by (induction records arbitrary: cd) (auto simp: split_beta Let_def)

text \<open>
  C5 (year filtering).  A record whose year is not the target year leaves the
  aggregate state unchanged and prints nothing, and the whole result of the loop, every
  field of the state, is the result of the loop over the records of the target year
  alone.
\<close>

theorem year_filter_admits_only_target_year:
  "(dt_year timestamp \<noteq> year \<longrightarrow>
      analyze_loop year cd [(command, timestamp)] = (cd, []) \<and>
      analyze_loop year cd ((command, timestamp) # rest) = analyze_loop year cd rest) \<and>
   analyze_loop year cd records =
     analyze_loop year cd (filter (\<lambda>r. dt_year (snd r) = year) records)"
  using analyze_loop_filter [of year cd records] by simp

theorem year_filter_admits_only_target_year_witness:
  "dt_year (datetime_max\<lparr>dt_year := 2022\<rparr>) \<noteq> 2023 \<and>
   analyze_loop 2023 init_command_data [(''ls'', datetime_max\<lparr>dt_year := 2022\<rparr>)] =
     (init_command_data, [])"
  using year_filter_admits_only_target_year
    [of "datetime_max\<lparr>dt_year := 2022\<rparr>" 2023 init_command_data "''ls''" "[]" "[]"]
  by simp

subsection \<open>The first command\<close>

lemma analyze_loop_append:
  "fst (analyze_loop year cd (xs @ ys)) =
   fst (analyze_loop year (fst (analyze_loop year cd xs)) ys)"
  by (induction xs arbitrary: cd) (auto simp: split_beta Let_def)

lemma analyze_loop_not_counted:
  "\<not> counted year (command, timestamp) \<Longrightarrow>
   fst (analyze_loop year cd [(command, timestamp)]) = cd"
  using safe_split_command_returns [of command]
  by (auto simp: counted_def process_command_def split_beta Let_def split: list.splits)

lemma analyze_loop_counted:
  assumes "counted year (command, timestamp)"
  shows "first_command (fst (analyze_loop year cd [(command, timestamp)])) =
           (if dt_less timestamp (first_command_time cd) then Some command else first_command cd)"
    and "first_command_time (fst (analyze_loop year cd [(command, timestamp)])) =
           (if dt_less timestamp (first_command_time cd) then timestamp else first_command_time cd)"
  using assms
  by (auto simp: counted_def process_command_def split_beta Let_def split: list.splits sum.splits)

lemma is_earliest_single: "is_earliest [r] 0"
  by (simp add: is_earliest_def dt_less_def)

lemma is_earliest_snoc_new:
  assumes "is_earliest rs i" and "dt_less (snd r) (snd (rs ! i))"
  shows "is_earliest (rs @ [r]) (length rs)"
  using assms unfolding is_earliest_def dt_less_def
  by (auto simp: nth_append less_Suc_eq)

lemma is_earliest_snoc_keep:
  assumes "is_earliest rs i" and "\<not> dt_less (snd r) (snd (rs ! i))"
  shows "is_earliest (rs @ [r]) i" and "(rs @ [r]) ! i = rs ! i"
  using assms unfolding is_earliest_def
  by (auto simp: nth_append less_Suc_eq)

lemma tracks_earliest_all:
  assumes "\<forall>r\<in>set records. counted year r \<longrightarrow> dt_less (snd r) datetime_max"
  shows "tracks_earliest year records"
  using assms
proof (induction records rule: rev_induct)
  case Nil
  then show ?case by (simp add: tracks_earliest_def init_command_data_def)
next
  case (snoc r records)
  obtain command timestamp where r: "r = (command, timestamp)" by (cases r)
  define cd where "cd = fst (analyze_loop year init_command_data records)"
  define rs where "rs = filter (counted year) records"
  have step: "fst (analyze_loop year init_command_data (records @ [r])) =
              fst (analyze_loop year cd [(command, timestamp)])"
    by (simp add: analyze_loop_append cd_def r)
  from snoc have IH: "(rs = [] \<and> first_command cd = None \<and> first_command_time cd = datetime_max) \<or>
         (\<exists>i. is_earliest rs i \<and> first_command cd = Some (fst (rs ! i)) \<and>
              first_command_time cd = snd (rs ! i))"
    by (simp add: tracks_earliest_def cd_def rs_def Let_def)
  show ?case
  proof (cases "counted year r")
    case False
    then have "\<not> counted year (command, timestamp)"
      by (simp add: r)
    then have "fst (analyze_loop year cd [(command, timestamp)]) = cd"
      by (rule analyze_loop_not_counted)
    with False IH step show ?thesis
      by (simp add: tracks_earliest_def Let_def cd_def rs_def)
  next
    case True
    then have before_max: "dt_less timestamp datetime_max"
      using snoc.prems r by auto
    have rs': "filter (counted year) (records @ [r]) = rs @ [r]"
      using True by (simp add: rs_def)
    note fc = analyze_loop_counted [OF True [unfolded r], of cd]
    from IH show ?thesis
    proof
      assume empty: "rs = [] \<and> first_command cd = None \<and> first_command_time cd = datetime_max"
      with before_max fc have "first_command (fst (analyze_loop year cd [(command, timestamp)])) = Some command"
        and "first_command_time (fst (analyze_loop year cd [(command, timestamp)])) = timestamp"
        by simp_all
      with empty is_earliest_single [of r] show ?thesis
        unfolding tracks_earliest_def Let_def rs' step
        by (auto simp: r intro!: exI [of _ 0])
    next
      assume "\<exists>i. is_earliest rs i \<and> first_command cd = Some (fst (rs ! i)) \<and>
              first_command_time cd = snd (rs ! i)"
      then obtain i where i: "is_earliest rs i" "first_command cd = Some (fst (rs ! i))"
        "first_command_time cd = snd (rs ! i)" by blast
      show ?thesis
      proof (cases "dt_less timestamp (snd (rs ! i))")
        case True
        with i have "is_earliest (rs @ [r]) (length rs)"
          by (simp add: is_earliest_snoc_new r)
        moreover from True i fc
        have "first_command (fst (analyze_loop year cd [(command, timestamp)])) = Some command"
          and "first_command_time (fst (analyze_loop year cd [(command, timestamp)])) = timestamp"
          by simp_all
        ultimately show ?thesis
          unfolding tracks_earliest_def Let_def rs' step
          by (auto simp: r intro!: exI [of _ "length rs"])
      next
        case False
        with i have "is_earliest (rs @ [r]) i" "(rs @ [r]) ! i = rs ! i"
          by (simp_all add: is_earliest_snoc_keep r)
        moreover from False i fc
        have "first_command (fst (analyze_loop year cd [(command, timestamp)])) = Some (fst (rs ! i))"
          and "first_command_time (fst (analyze_loop year cd [(command, timestamp)])) = snd (rs ! i)"
          by simp_all
        ultimately show ?thesis
          unfolding tracks_earliest_def Let_def rs' step
          by (auto intro!: exI [of _ i])
      qed
    qed
  qed
qed


text \<open>
  C6 (first command).  Take a stream whose counted records (target year, a base
  command found) are all earlier than the sentinel \<^verbatim>\<open>datetime.max\<close> with which
  \<^verbatim>\<open>first_command_time\<close> starts.  After the loop \<^verbatim>\<open>first_command\<close> is \<^verbatim>\<open>None\<close>
  when no record was counted, and otherwise the full text of the counted record with
  the minimum timestamp, the first such in the stream when several share it, whatever
  the order of the stream.
\<close>

theorem first_command_is_earliest:
  assumes "\<forall>r\<in>set records. counted year r \<longrightarrow> dt_less (snd r) datetime_max"
  shows "(filter (counted year) records = [] \<longrightarrow>
            first_command (fst (analyze_loop year init_command_data records)) = None) \<and>
         (filter (counted year) records \<noteq> [] \<longrightarrow>
            (\<exists>i. is_earliest (filter (counted year) records) i \<and>
                 first_command (fst (analyze_loop year init_command_data records)) =
                   Some (fst (filter (counted year) records ! i))))"
  using tracks_earliest_all [OF assms]
  by (auto simp: tracks_earliest_def Let_def is_earliest_def)

theorem first_command_is_earliest_witness:
  "list_all (\<lambda>r. counted 2023 r \<and> dt_less (snd r) datetime_max)
     [(''ls'', datetime_max\<lparr>dt_year := 2023, dt_month := 3\<rparr>),
      (''pwd'', datetime_max\<lparr>dt_year := 2023, dt_month := 1\<rparr>),
      (''cd /tmp'', datetime_max\<lparr>dt_year := 2023, dt_month := 2, dt_day := 28\<rparr>)] \<and>
   (\<exists>i. is_earliest
          (filter (counted 2023)
            [(''ls'', datetime_max\<lparr>dt_year := 2023, dt_month := 3\<rparr>),
             (''pwd'', datetime_max\<lparr>dt_year := 2023, dt_month := 1\<rparr>),
             (''cd /tmp'', datetime_max\<lparr>dt_year := 2023, dt_month := 2, dt_day := 28\<rparr>)]) i \<and>
        first_command (fst (analyze_loop 2023 init_command_data
            [(''ls'', datetime_max\<lparr>dt_year := 2023, dt_month := 3\<rparr>),
             (''pwd'', datetime_max\<lparr>dt_year := 2023, dt_month := 1\<rparr>),
             (''cd /tmp'', datetime_max\<lparr>dt_year := 2023, dt_month := 2, dt_day := 28\<rparr>)])) =
          Some (fst (filter (counted 2023)
            [(''ls'', datetime_max\<lparr>dt_year := 2023, dt_month := 3\<rparr>),
             (''pwd'', datetime_max\<lparr>dt_year := 2023, dt_month := 1\<rparr>),
             (''cd /tmp'', datetime_max\<lparr>dt_year := 2023, dt_month := 2, dt_day := 28\<rparr>)] ! i))) \<and>
   first_command (fst (analyze_loop 2023 init_command_data
     [(''ls'', datetime_max\<lparr>dt_year := 2023, dt_month := 3\<rparr>),
      (''pwd'', datetime_max\<lparr>dt_year := 2023, dt_month := 1\<rparr>),
      (''cd /tmp'', datetime_max\<lparr>dt_year := 2023, dt_month := 2, dt_day := 28\<rparr>)])) = Some ''pwd''"
proof -
  let ?recs = "[(''ls'', datetime_max\<lparr>dt_year := 2023, dt_month := 3\<rparr>),
      (''pwd'', datetime_max\<lparr>dt_year := 2023, dt_month := 1\<rparr>),
      (''cd /tmp'', datetime_max\<lparr>dt_year := 2023, dt_month := 2, dt_day := 28\<rparr>)]"
  have early: "list_all (\<lambda>r. counted 2023 r \<and> dt_less (snd r) datetime_max) ?recs"
    by code_simp
  then have before: "\<forall>r\<in>set ?recs. counted 2023 r \<longrightarrow> dt_less (snd r) datetime_max"
    by (simp add: list_all_iff)
  have some: "filter (counted 2023) ?recs \<noteq> []"
    by code_simp
  have found: "first_command (fst (analyze_loop 2023 init_command_data ?recs)) = Some ''pwd''"
    by code_simp
  from first_command_is_earliest [OF before] some early found show ?thesis
    by blast
qed

text \<open>The sentinel itself is not earlier than the sentinel: a counted record stamped
  \<^verbatim>\<open>datetime.max\<close> leaves \<^verbatim>\<open>first_command\<close> at \<^verbatim>\<open>None\<close>.\<close>

theorem first_command_sentinel_counterexample:
  "counted 9999 (''ls'', datetime_max) \<and>
   total_commands (fst (analyze_loop 9999 init_command_data [(''ls'', datetime_max)])) = 1 \<and>
   first_command (fst (analyze_loop 9999 init_command_data [(''ls'', datetime_max)])) = None"
  by code_simp

subsection \<open>The most active weekday and hour\<close>

lemma first_max_at_snoc_new:
  assumes "first_max_at f zs i" and "f (zs ! i) < f y"
  shows "first_max_at f (zs @ [y]) (length zs)"
  unfolding first_max_at_def
proof (intro conjI allI impI)
  show "length zs < length (zs @ [y])" by simp
next
  fix j assume "j < length (zs @ [y])"
  then consider "j < length zs" | "j = length zs" by (auto simp: less_Suc_eq)
  then show "f ((zs @ [y]) ! j) \<le> f ((zs @ [y]) ! length zs)"
  proof cases
    case 1
    with assms have "f (zs ! j) \<le> f (zs ! i)" by (simp add: first_max_at_def)
    with assms(2) 1 show ?thesis by (simp add: nth_append)
  next
    case 2
    then show ?thesis by simp
  qed
next
  fix j assume j: "j < length zs"
  with assms have "f (zs ! j) \<le> f (zs ! i)" by (simp add: first_max_at_def)
  with assms(2) j show "f ((zs @ [y]) ! j) < f ((zs @ [y]) ! length zs)"
    by (simp add: nth_append)
qed

lemma first_max_at_snoc_keep:
  assumes "first_max_at f zs i" and "\<not> f (zs ! i) < f y"
  shows "first_max_at f (zs @ [y]) i" and "(zs @ [y]) ! i = zs ! i"
proof -
  from assms(1) have i: "i < length zs" by (simp add: first_max_at_def)
  then show same: "(zs @ [y]) ! i = zs ! i" by (simp add: nth_append)
  show "first_max_at f (zs @ [y]) i"
    unfolding first_max_at_def same
  proof (intro conjI allI impI)
    show "i < length (zs @ [y])" using i by simp
  next
    fix j assume "j < length (zs @ [y])"
    then consider "j < length zs" | "j = length zs" by (auto simp: less_Suc_eq)
    then show "f ((zs @ [y]) ! j) \<le> f (zs ! i)"
    proof cases
      case 1
      with assms(1) show ?thesis by (simp add: first_max_at_def nth_append)
    next
      case 2
      with assms(2) show ?thesis by simp
    qed
  next
    fix j assume "j < i"
    with assms(1) i show "f ((zs @ [y]) ! j) < f (zs ! i)"
      by (simp add: first_max_at_def nth_append)
  qed
qed

lemma foldl_first_max:
  "\<exists>i. first_max_at f (x # xs) i \<and>
       foldl (\<lambda>best y. if f y > f best then y else best) x xs = (x # xs) ! i"
proof (induction xs rule: rev_induct)
  case Nil
  show ?case by (simp add: first_max_at_def)
next
  case (snoc y xs)
  then obtain i where i: "first_max_at f (x # xs) i"
    and best: "foldl (\<lambda>best y. if f y > f best then y else best) x xs = (x # xs) ! i"
    by blast
  show ?case
  proof (cases "f ((x # xs) ! i) < f y")
    case True
    from first_max_at_snoc_new [OF i True]
    have "first_max_at f (x # xs @ [y]) (Suc (length xs))" by simp
    moreover have "(x # xs @ [y]) ! Suc (length xs) = y" by simp
    ultimately show ?thesis using True best by (intro exI [of _ "Suc (length xs)"]) simp
  next
    case False
    from first_max_at_snoc_keep [OF i False]
    have "first_max_at f (x # xs @ [y]) i" and "(x # xs @ [y]) ! i = (x # xs) ! i" by simp_all
    then show ?thesis using False best by (intro exI [of _ i]) simp
  qed
qed

lemma max_by_first_max:
  "xs \<noteq> [] \<Longrightarrow> \<exists>i. first_max_at f xs i \<and> max_by f xs = Inr (xs ! i)"
  using foldl_first_max [of f "hd xs" "tl xs"] by (cases xs) simp_all


lemma first_seen_snoc:
  "first_seen (xs @ [k]) = (if k \<in> set (first_seen xs) then first_seen xs else first_seen xs @ [k])"
  by (simp add: first_seen_def)

lemma analyze_loop_counted_buckets:
  assumes "counted year (command, timestamp)"
  shows "commands_by_weekday (fst (analyze_loop year cd [(command, timestamp)])) =
           incr (weekday timestamp) (commands_by_weekday cd)"
    and "commands_by_hour (fst (analyze_loop year cd [(command, timestamp)])) =
           incr (dt_hour timestamp) (commands_by_hour cd)"
  using assms
  by (auto simp: counted_def process_command_def split_beta Let_def split: list.splits sum.splits)

lemma keys_incr_order:
  "map fst (incr k m) = (if k \<in> set (map fst m) then map fst m else map fst m @ [k])"
  unfolding incr_def by (rule keys_dd_update)

lemma bucket_keys_first_seen:
  "map fst (commands_by_weekday (fst (analyze_loop year init_command_data records))) =
     first_seen (map (\<lambda>r. weekday (snd r)) (filter (counted year) records)) \<and>
   map fst (commands_by_hour (fst (analyze_loop year init_command_data records))) =
     first_seen (map (\<lambda>r. dt_hour (snd r)) (filter (counted year) records))"
proof (induction records rule: rev_induct)
  case Nil
  show ?case by (simp add: init_command_data_def first_seen_def)
next
  case (snoc r records)
  obtain command timestamp where r: "r = (command, timestamp)" by (cases r)
  define cd where "cd = fst (analyze_loop year init_command_data records)"
  have step: "fst (analyze_loop year init_command_data (records @ [r])) =
              fst (analyze_loop year cd [(command, timestamp)])"
    by (simp add: analyze_loop_append cd_def r)
  show ?case
  proof (cases "counted year r")
    case False
    then have "\<not> counted year (command, timestamp)" by (simp add: r)
    then have "fst (analyze_loop year cd [(command, timestamp)]) = cd"
      by (rule analyze_loop_not_counted)
    with False snoc step show ?thesis by (simp add: cd_def)
  next
    case True
    note b = analyze_loop_counted_buckets [OF True [unfolded r], of cd]
    from True snoc show ?thesis
      unfolding step b
      by (simp add: keys_incr_order first_seen_snoc cd_def r del: set_map)
  qed
qed

text \<open>
  C8 (ties in the report), as the code has it.  For a state with a non-empty weekday
  bucket the reported weekday has the maximum count and is the first such item of the
  bucket; the same holds for the hour.  The items of a bucket stand in the order in
  which their keys first occurred among the counted records of the stream.  So a tie
  goes to the weekday (or hour) that occurred first in the stream, not to the lowest
  index: with counts \<open>{0:5, 3:5}\<close> the report names weekday 0 when a Monday record
  was counted before any Thursday record, and weekday 3 in the other order.
\<close>

theorem most_active_is_first_maximum:
  "(commands_by_weekday cd \<noteq> [] \<longrightarrow>
      (\<exists>i. first_max_at snd (commands_by_weekday cd) i \<and>
           most_active_weekday cd = Inr (fst (commands_by_weekday cd ! i)))) \<and>
   (commands_by_hour cd \<noteq> [] \<longrightarrow>
      (\<exists>i. first_max_at snd (commands_by_hour cd) i \<and>
           most_active_hour cd = Inr (fst (commands_by_hour cd ! i)))) \<and>
   map fst (commands_by_weekday (fst (analyze_loop year init_command_data records))) =
     first_seen (map (\<lambda>r. weekday (snd r)) (filter (counted year) records)) \<and>
   map fst (commands_by_hour (fst (analyze_loop year init_command_data records))) =
     first_seen (map (\<lambda>r. dt_hour (snd r)) (filter (counted year) records))"
proof -
  have "\<exists>i. first_max_at snd b i \<and> (case max_by snd b of Inl e \<Rightarrow> Inl e | Inr item \<Rightarrow> Inr (fst item)) = Inr (fst (b ! i))"
    if "b \<noteq> []" for b :: "(int \<times> int) list"
    using max_by_first_max [OF that, of snd] by auto
  then show ?thesis
    using bucket_keys_first_seen [of year records]
    by (simp add: most_active_weekday_def most_active_hour_def)
qed

theorem most_active_is_first_maximum_witness:
  "commands_by_weekday (init_command_data\<lparr>commands_by_weekday := [(0, 5), (3, 5)]\<rparr>) \<noteq> [] \<and>
   (\<exists>i. first_max_at snd
          (commands_by_weekday (init_command_data\<lparr>commands_by_weekday := [(0, 5), (3, 5)]\<rparr>)) i \<and>
        most_active_weekday (init_command_data\<lparr>commands_by_weekday := [(0, 5), (3, 5)]\<rparr>) =
          Inr (fst (commands_by_weekday
                 (init_command_data\<lparr>commands_by_weekday := [(0, 5), (3, 5)]\<rparr>) ! i))) \<and>
   most_active_weekday (init_command_data\<lparr>commands_by_weekday := [(0, 5), (3, 5)]\<rparr>) = Inr 0"
proof -
  have nonempty: "commands_by_weekday (init_command_data\<lparr>commands_by_weekday := [(0, 5), (3, 5)]\<rparr>) \<noteq> []"
    by simp
  have monday: "most_active_weekday (init_command_data\<lparr>commands_by_weekday := [(0, 5), (3, 5)]\<rparr>) = Inr 0"
    by (simp add: most_active_weekday_def)
  from most_active_is_first_maximum
    [of "init_command_data\<lparr>commands_by_weekday := [(0, 5), (3, 5)]\<rparr>" 2023 "[]"] nonempty monday
  show ?thesis by blast
qed

text \<open>Five Thursday records followed by five Monday records give the bucket
  \<open>{3:5, 0:5}\<close>, and the reported weekday is 3.\<close>

theorem most_active_weekday_tie_counterexample:
  "commands_by_weekday (fst (analyze_loop 2023 init_command_data
      (replicate 5 (''ls'', \<lparr>dt_year = 2023, dt_month = 1, dt_day = 5, dt_hour = 9,
                            dt_minute = 0, dt_second = 0, dt_microsecond = 0\<rparr>) @
       replicate 5 (''ls'', \<lparr>dt_year = 2023, dt_month = 1, dt_day = 2, dt_hour = 9,
                            dt_minute = 0, dt_second = 0, dt_microsecond = 0\<rparr>)))) =
     [(3, 5), (0, 5)] \<and>
   most_active_weekday (fst (analyze_loop 2023 init_command_data
      (replicate 5 (''ls'', \<lparr>dt_year = 2023, dt_month = 1, dt_day = 5, dt_hour = 9,
                            dt_minute = 0, dt_second = 0, dt_microsecond = 0\<rparr>) @
       replicate 5 (''ls'', \<lparr>dt_year = 2023, dt_month = 1, dt_day = 2, dt_hour = 9,
                            dt_minute = 0, dt_second = 0, dt_microsecond = 0\<rparr>)))) = Inr 3"
  by code_simp


subsection \<open>Fatal errors of \<^verbatim>\<open>parse_shell_history\<close>\<close>

lemma parse_shell_history_missing:
  assumes "shell \<notin> {''bash'', ''zsh'', ''fish''} \<or>
           (\<exists>p. history_files env shell = Some p \<and> \<not> path_exists env p)"
  shows "parse_shell_history env k shell =
           Inl (FileNotFoundError (''History file not found for '' @ shell))"
  using assms by (auto simp: parse_shell_history_def history_files_def Let_def)

text \<open>
  C9 (missing file, unknown shell).  When the shell is not one of bash, zsh and fish,
  or the history file of the shell does not exist, \<^verbatim>\<open>parse_shell_history\<close> raises
  \<^verbatim>\<open>FileNotFoundError\<close> with a message that names the shell; \<^verbatim>\<open>analyze_commands\<close>
  passes it on with the aggregate state untouched and nothing printed; \<^verbatim>\<open>main\<close>
  ends with that exception, having printed no line of a report, and the exit status
  is 1.
\<close>

theorem missing_history_is_fatal:
  assumes "shell \<notin> {''bash'', ''zsh'', ''fish''} \<or>
           (\<exists>p. history_files env shell = Some p \<and> \<not> path_exists env p)"
  shows "parse_shell_history env k shell =
           Inl (FileNotFoundError (''History file not found for '' @ shell)) \<and>
         analyze_commands env k year cd shell =
           (cd, [], Some (FileNotFoundError (''History file not found for '' @ shell))) \<and>
         main env year_arg shell =
           ([], Some (FileNotFoundError (''History file not found for '' @ shell))) \<and>
         exit_status (main env year_arg shell) = 1"
proof -
  have p: "parse_shell_history env k' shell =
           Inl (FileNotFoundError (''History file not found for '' @ shell))" for k'
    using assms by (rule parse_shell_history_missing)
  then have a: "analyze_commands env k' year' cd' shell =
           (cd', [], Some (FileNotFoundError (''History file not found for '' @ shell)))"
    for k' year' cd'
    by (simp add: analyze_commands_def)
  then have m: "main env year_arg shell =
           ([], Some (FileNotFoundError (''History file not found for '' @ shell)))"
    by (simp add: main_def split_beta)
  then have "exit_status (main env year_arg shell) = 1"
    by (simp add: exit_status_def)
  with p a m show ?thesis by simp
qed

theorem missing_history_is_fatal_witness:
  "history_files (example_env (\<lambda>p. False) []) ''zsh'' = Some ''/home/user/.zsh_history'' \<and>
   \<not> path_exists (example_env (\<lambda>p. False) []) ''/home/user/.zsh_history'' \<and>
   main (example_env (\<lambda>p. False) []) (Some 2023) ''zsh'' =
     ([], Some (FileNotFoundError ''History file not found for zsh'')) \<and>
   ''tcsh'' \<notin> {''bash'', ''zsh'', ''fish''} \<and>
   main (example_env (\<lambda>p. True) [''ls'']) (Some 2023) ''tcsh'' =
     ([], Some (FileNotFoundError ''History file not found for tcsh''))"
proof -
  have missing: "''zsh'' \<notin> {''bash'', ''zsh'', ''fish''} \<or>
    (\<exists>p. history_files (example_env (\<lambda>p. False) []) ''zsh'' = Some p \<and>
         \<not> path_exists (example_env (\<lambda>p. False) []) p)"
    by (simp add: history_files_def example_env_def)
  have unknown: "''tcsh'' \<notin> {''bash'', ''zsh'', ''fish''} \<or>
    (\<exists>p. history_files (example_env (\<lambda>p. True) [''ls'']) ''tcsh'' = Some p \<and>
         \<not> path_exists (example_env (\<lambda>p. True) [''ls'']) p)"
    by simp
  have zsh_file: "history_files (example_env (\<lambda>p. False) []) ''zsh'' = Some ''/home/user/.zsh_history''"
    and absent: "\<not> path_exists (example_env (\<lambda>p. False) []) ''/home/user/.zsh_history''"
    by (simp_all add: history_files_def example_env_def)
  from missing_history_is_fatal [OF missing, of 0 2023 init_command_data "Some 2023"]
    missing_history_is_fatal [OF unknown, of 0 2023 init_command_data "Some 2023"] zsh_file absent
  show ?thesis by simp
qed

text \<open>
  C10 (fish).  When the fish history file exists at its path, the existence check
  passes and \<^verbatim>\<open>getattr\<close> raises \<^verbatim>\<open>AttributeError\<close> for \<^verbatim>\<open>_parse_fish_history\<close>:
  no record is parsed, the error is not the \<^verbatim>\<open>FileNotFoundError\<close> of the other
  failures, and \<^verbatim>\<open>main\<close> ends with it, the state untouched and nothing printed.
\<close>

theorem fish_raises_attribute_error:
  assumes "expanduser env ''~/.local/share/fish/fish_history'' \<noteq> []"
    and "path_exists env (expanduser env ''~/.local/share/fish/fish_history'')"
  shows "parse_shell_history env k ''fish'' = Inl (AttributeError ''_parse_fish_history'') \<and>
         analyze_commands env k year cd ''fish'' =
           (cd, [], Some (AttributeError ''_parse_fish_history'')) \<and>
         main env year_arg ''fish'' = ([], Some (AttributeError ''_parse_fish_history''))"
proof -
  have p: "parse_shell_history env k' ''fish'' = Inl (AttributeError ''_parse_fish_history'')" for k'
    using assms by (simp add: parse_shell_history_def history_files_def getattr_def)
  then have a: "analyze_commands env k' year' cd' ''fish'' =
      (cd', [], Some (AttributeError ''_parse_fish_history''))" for k' year' cd'
    by (simp add: analyze_commands_def)
  then have "main env year_arg ''fish'' = ([], Some (AttributeError ''_parse_fish_history''))"
    by (simp add: main_def split_beta)
  with p a show ?thesis by simp
qed

theorem fish_raises_attribute_error_witness:
  "expanduser (example_env (\<lambda>p. True) [''- cmd: ls'']) ''~/.local/share/fish/fish_history'' \<noteq> [] \<and>
   path_exists (example_env (\<lambda>p. True) [''- cmd: ls''])
     (expanduser (example_env (\<lambda>p. True) [''- cmd: ls'']) ''~/.local/share/fish/fish_history'') \<and>
   main (example_env (\<lambda>p. True) [''- cmd: ls'']) (Some 2023) ''fish'' =
     ([], Some (AttributeError ''_parse_fish_history''))"
proof -
  have path: "expanduser (example_env (\<lambda>p. True) [''- cmd: ls'']) ''~/.local/share/fish/fish_history'' \<noteq> []"
    by (simp add: example_env_def)
  have there: "path_exists (example_env (\<lambda>p. True) [''- cmd: ls''])
     (expanduser (example_env (\<lambda>p. True) [''- cmd: ls'']) ''~/.local/share/fish/fish_history'')"
    by (simp add: example_env_def)
  from fish_raises_attribute_error [OF path there, of 0 2023 init_command_data "Some 2023"] path there
  show ?thesis by simp
qed

subsection \<open>The report\<close>

text \<open>With data the report raises nothing: on every state that has data for every
  section, and so on every state the loop reaches from the initial one once a record
  was counted, the months of the records being 1 to 12.\<close>

lemma set_first_seen: "set (first_seen xs) = set xs"
  by (induction xs rule: rev_induct) (auto simp: first_seen_snoc first_seen_def)

lemma py_index_month_names:
  "1 \<le> m \<Longrightarrow> m \<le> 12 \<Longrightarrow> \<exists>name. py_index month_names (m - 1) = Inr name"
  by (simp add: py_index_def month_names_def)

lemma py_index_weekdays:
  "0 \<le> d \<Longrightarrow> d < 7 \<Longrightarrow> \<exists>name. py_index weekdays d = Inr name"
  by (simp add: py_index_def weekdays_def)

lemma seq_no_error: "snd a = None \<Longrightarrow> snd b = None \<Longrightarrow> snd (seq a b) = None"
  by (cases a) (simp add: seq_def)

lemma print_active_months_no_error:
  "list_all (\<lambda>m. 1 \<le> m \<and> m \<le> 12) (map fst xs) \<Longrightarrow> snd (print_active_months xs) = None"
proof (induction xs)
  case Nil
  show ?case by simp
next
  case (Cons x xs)
  obtain month data where x: "x = (month, data)" by (cases x)
  with Cons.prems obtain name where "py_index month_names (month - 1) = Inr name"
    using py_index_month_names [of month] by auto
  with Cons x show ?case by (simp add: seq_no_error)
qed

lemma print_top_months_no_error:
  "list_all (\<lambda>m. 1 \<le> m \<and> m \<le> 12) (map fst xs) \<Longrightarrow> snd (print_top_months xs) = None"
proof (induction xs)
  case Nil
  show ?case by simp
next
  case (Cons x xs)
  obtain month data where x: "x = (month, data)" by (cases x)
  with Cons.prems obtain name where "py_index month_names (month - 1) = Inr name"
    using py_index_month_names [of month] by auto
  with Cons x show ?case by (simp add: seq_no_error Let_def)
qed

lemma active_months_valid:
  assumes "list_all (\<lambda>m. 1 \<le> m \<and> m \<le> 12) (map fst xs)"
  shows "list_all (\<lambda>m. 1 \<le> m \<and> m \<le> 12) (map fst (take 3 (sorted_reverse f xs)))"
proof -
  have "set (take 3 (sorted_reverse f xs)) \<subseteq> set xs"
    using set_take_subset [of 3 "sorted_reverse f xs"] by (simp add: sorted_reverse_def)
  with assms show ?thesis by (auto simp: list_all_iff)
qed

lemma print_most_active_day_no_error:
  assumes "commands_by_weekday cd \<noteq> []"
    and "list_all (\<lambda>d. 0 \<le> d \<and> d < 7) (map fst (commands_by_weekday cd))"
  shows "snd (print_most_active_day cd) = None"
proof -
  from max_by_first_max [OF assms(1), of snd]
  obtain i where i: "i < length (commands_by_weekday cd)"
    and m: "max_by snd (commands_by_weekday cd) = Inr (commands_by_weekday cd ! i)"
    by (auto simp: first_max_at_def)
  from i assms(2) have "0 \<le> fst (commands_by_weekday cd ! i) \<and> fst (commands_by_weekday cd ! i) < 7"
    by (simp add: list_all_length)
  then obtain name where "py_index weekdays (fst (commands_by_weekday cd ! i)) = Inr name"
    using py_index_weekdays by blast
  with m show ?thesis
    by (simp add: print_most_active_day_def most_active_weekday_def)
qed

lemma print_most_active_hour_no_error:
  assumes "commands_by_hour cd \<noteq> []"
  shows "snd (print_most_active_hour cd) = None"
proof -
  from max_by_first_max [OF assms, of snd]
  obtain i where "max_by snd (commands_by_hour cd) = Inr (commands_by_hour cd ! i)"
    by auto
  then show ?thesis
    by (simp add: print_most_active_hour_def most_active_hour_def)
qed

lemma generate_report_no_error:
  assumes "reportable cd"
  shows "snd (generate_report year cd) = None"
proof -
  from assms have months: "list_all (\<lambda>m. 1 \<le> m \<and> m \<le> 12) (map fst (commands_by_month cd))"
    and day: "snd (print_most_active_day cd) = None"
    and hour: "snd (print_most_active_hour cd) = None"
    by (simp_all add: reportable_def print_most_active_day_no_error print_most_active_hour_no_error)
  let ?active = "take 3 (sorted_reverse (\<lambda>x. count (snd x)) (commands_by_month cd))"
  from months have "list_all (\<lambda>m. 1 \<le> m \<and> m \<le> 12) (map fst ?active)"
    by (rule active_months_valid)
  then have "snd (print_active_months ?active) = None" and "snd (print_top_months ?active) = None"
    by (simp_all add: print_active_months_no_error print_top_months_no_error)
  with day hour show ?thesis
    unfolding generate_report_def Let_def
    by (intro seq_no_error) simp_all
qed

lemma analyze_loop_counted_month:
  assumes "counted year (command, timestamp)"
  shows "map fst (commands_by_month (fst (analyze_loop year cd [(command, timestamp)]))) =
           (if dt_month timestamp \<in> set (map fst (commands_by_month cd))
            then map fst (commands_by_month cd)
            else map fst (commands_by_month cd) @ [dt_month timestamp])"
  using assms
  by (auto simp: counted_def process_command_def split_beta Let_def keys_dd_update
           simp del: set_map split: list.splits sum.splits)

lemma month_keys_first_seen:
  "map fst (commands_by_month (fst (analyze_loop year init_command_data records))) =
     first_seen (map (\<lambda>r. dt_month (snd r)) (filter (counted year) records))"
proof (induction records rule: rev_induct)
  case Nil
  show ?case by (simp add: init_command_data_def first_seen_def)
next
  case (snoc r records)
  obtain command timestamp where r: "r = (command, timestamp)" by (cases r)
  define cd where "cd = fst (analyze_loop year init_command_data records)"
  have step: "fst (analyze_loop year init_command_data (records @ [r])) =
              fst (analyze_loop year cd [(command, timestamp)])"
    by (simp add: analyze_loop_append cd_def r)
  show ?case
  proof (cases "counted year r")
    case False
    then have "\<not> counted year (command, timestamp)" by (simp add: r)
    then have "fst (analyze_loop year cd [(command, timestamp)]) = cd"
      by (rule analyze_loop_not_counted)
    with False snoc step show ?thesis by (simp add: cd_def)
  next
    case True
    note b = analyze_loop_counted_month [OF True [unfolded r], of cd]
    from True snoc show ?thesis
      unfolding step b
      by (simp add: first_seen_snoc cd_def r del: set_map)
  qed
qed

lemma reached_reportable:
  assumes "list_all (\<lambda>r. 1 \<le> dt_month (snd r) \<and> dt_month (snd r) \<le> 12) records"
    and "filter (counted year) records \<noteq> []"
  shows "reportable (fst (analyze_loop year init_command_data records))"
proof -
  let ?cd = "fst (analyze_loop year init_command_data records)"
  let ?rs = "filter (counted year) records"
  note keys = bucket_keys_first_seen [of year records]
  from assms(2) obtain r where r: "r \<in> set ?rs" by (cases ?rs) auto
  from keys have "fst ` set (commands_by_weekday ?cd) = (\<lambda>r. weekday (snd r)) ` set ?rs"
    by (metis set_first_seen set_map)
  then have wd: "commands_by_weekday ?cd \<noteq> []"
    and wdr: "list_all (\<lambda>d. 0 \<le> d \<and> d < 7) (map fst (commands_by_weekday ?cd))"
    using r by (auto simp: list_all_iff weekday_def)
  from keys have "fst ` set (commands_by_hour ?cd) = (\<lambda>r. dt_hour (snd r)) ` set ?rs"
    by (metis set_first_seen set_map)
  then have hr: "commands_by_hour ?cd \<noteq> []"
    using r by auto
  from month_keys_first_seen [of year records]
  have "fst ` set (commands_by_month ?cd) = (\<lambda>r. dt_month (snd r)) ` set ?rs"
    by (metis set_first_seen set_map)
  with assms(1) have "list_all (\<lambda>m. 1 \<le> m \<and> m \<le> 12) (map fst (commands_by_month ?cd))"
    by (auto simp: list_all_iff)
  with wd wdr hr show ?thesis by (simp add: reportable_def)
qed

text \<open>
  C3 (no data).  On the initial, all-zero state \<^verbatim>\<open>generate_report\<close> prints the
  header, the two totals and the three headings, and then \<^verbatim>\<open>max\<close> over the empty
  weekday bucket raises \<^verbatim>\<open>ValueError\<close>; so does the whole program on an empty bash
  history.
\<close>

theorem generate_report_raises_on_empty_state:
  "generate_report 2023 init_command_data =
     ([Header 2023, TotalCommands 0, UniqueCommands 0, MostUsedHeading, ActiveMonthsHeading,
       TopCommandsHeading],
      Some (ValueError ''max() arg is an empty sequence'')) \<and>
   main (example_env (\<lambda>p. True) []) (Some 2023) ''bash'' =
     ([Header 2023, TotalCommands 0, UniqueCommands 0, MostUsedHeading, ActiveMonthsHeading,
       TopCommandsHeading],
      Some (ValueError ''max() arg is an empty sequence''))"
  by code_simp

subsection \<open>Errors while a record is processed\<close>

lemma process_command_prints_nothing: "snd (process_command cd command timestamp) = []"
  using safe_split_command_returns [of command]
  by (auto simp: process_command_def Let_def split: list.splits)

lemma process_command_total_commands:
  "safe_split_command command = Inr parts \<Longrightarrow>
   total_commands (fst (process_command cd command timestamp)) =
     (if parts = [] then total_commands cd else total_commands cd + 1)"
  by (auto simp: process_command_def Let_def split: list.splits)

text \<open>
  C2 (errors of a single record), as the code has it.  \<^verbatim>\<open>_process_command\<close> always
  returns and prints no warning: an error of the tokenization (an unterminated
  quotation, a backslash at the end) is absorbed by the fallback of
  \<^verbatim>\<open>_safe_split_command\<close>, silently, and the record is counted when the fallback
  finds a base command.  The loop goes on with the next record from the state that
  \<^verbatim>\<open>_process_command\<close> left.  An exception that leaves \<^verbatim>\<open>analyze_commands\<close> was
  raised by \<^verbatim>\<open>parse_shell_history\<close> or inside the parser's generator, never by the
  processing of a record.
\<close>

theorem record_errors_stay_in_process_command:
  "snd (process_command cd command timestamp) = [] \<and>
   (\<forall>e. shlex_split command = Inl e \<longrightarrow>
      total_commands (fst (process_command cd command timestamp)) =
        (if py_split (re_sub_quotes command) = [] then total_commands cd
         else total_commands cd + 1)) \<and>
   fst (analyze_loop year cd ((command, timestamp) # rest)) =
     fst (analyze_loop year
           (if dt_year timestamp = year then fst (process_command cd command timestamp) else cd)
           rest) \<and>
   (\<forall>cd' out e. analyze_commands env k year cd shell = (cd', out, Some e) \<longrightarrow>
      parse_shell_history env k shell = Inl e \<or>
      (\<exists>records. parse_shell_history env k shell = Inr (records, Some e)))"
proof (intro conjI allI impI)
  show "snd (process_command cd command timestamp) = []"
    by (rule process_command_prints_nothing)
next
  fix e assume "shlex_split command = Inl e"
  then have "safe_split_command command = Inr (py_split (re_sub_quotes command))"
    by (rule safe_split_command_fallback)
  then show "total_commands (fst (process_command cd command timestamp)) =
        (if py_split (re_sub_quotes command) = [] then total_commands cd
         else total_commands cd + 1)"
    by (rule process_command_total_commands)
next
  show "fst (analyze_loop year cd ((command, timestamp) # rest)) =
     fst (analyze_loop year
           (if dt_year timestamp = year then fst (process_command cd command timestamp) else cd)
           rest)"
    by (simp add: split_beta Let_def)
next
  fix cd' out e
  assume "analyze_commands env k year cd shell = (cd', out, Some e)"
  then show "parse_shell_history env k shell = Inl e \<or>
      (\<exists>records. parse_shell_history env k shell = Inr (records, Some e))"
    by (auto simp: analyze_commands_def split_beta Let_def split: sum.splits)
qed

theorem record_errors_stay_in_process_command_witness:
  "shlex_split (''echo '' @ [CHR 0x27] @ ''a b'') = Inl (ValueError ''No closing quotation'') \<and>
   snd (process_command init_command_data (''echo '' @ [CHR 0x27] @ ''a b'') datetime_max) = [] \<and>
   total_commands
     (fst (process_command init_command_data (''echo '' @ [CHR 0x27] @ ''a b'') datetime_max)) = 1 \<and>
   total_commands
     (fst (analyze_loop 9999 init_command_data
        [(''echo '' @ [CHR 0x27] @ ''a b'', datetime_max), (''ls'', datetime_max)])) = 2"
proof -
  have raises: "shlex_split (''echo '' @ [CHR 0x27] @ ''a b'') = Inl (ValueError ''No closing quotation'')"
    by code_simp
  have fallback: "py_split (re_sub_quotes (''echo '' @ [CHR 0x27] @ ''a b'')) = [''echo'']"
    by code_simp
  have next_record:
    "total_commands (fst (analyze_loop 9999 cd [(''ls'', datetime_max)])) = total_commands cd + 1"
    for cd
  proof -
    have "safe_split_command ''ls'' = Inr [''ls'']" by code_simp
    then show ?thesis
      by (simp add: split_beta process_command_total_commands datetime_max_def)
  qed
  note t = record_errors_stay_in_process_command
      [of init_command_data "''echo '' @ [CHR 0x27] @ ''a b''" datetime_max 9999
          "[(''ls'', datetime_max)]"]
  from t have silent:
    "snd (process_command init_command_data (''echo '' @ [CHR 0x27] @ ''a b'') datetime_max) = []"
    by blast
  from t raises fallback have one:
    "total_commands
       (fst (process_command init_command_data (''echo '' @ [CHR 0x27] @ ''a b'') datetime_max)) = 1"
    by (simp add: init_command_data_def)
  from t have "total_commands
     (fst (analyze_loop 9999 init_command_data
        [(''echo '' @ [CHR 0x27] @ ''a b'', datetime_max), (''ls'', datetime_max)])) =
     total_commands (fst (analyze_loop 9999
        (fst (process_command init_command_data (''echo '' @ [CHR 0x27] @ ''a b'') datetime_max))
        [(''ls'', datetime_max)]))"
    by (simp add: datetime_max_def)
  with next_record one have two: "total_commands
     (fst (analyze_loop 9999 init_command_data
        [(''echo '' @ [CHR 0x27] @ ''a b'', datetime_max), (''ls'', datetime_max)])) = 2"
    by simp
  from raises silent one two show ?thesis by blast
qed

text \<open>Two runs at which the specification's statement fails.  The tokenizer's error on
  \<^verbatim>\<open>echo 'a b\<close> is caught, and no warning is printed for it.  In a zsh history
  whose second record has \<^verbatim>\<open>oops\<close> where the parser reads the timestamp, \<^verbatim>\<open>int\<close>
  raises inside the generator: the first record was counted, the third is never read,
  nothing is printed and the program ends with the \<^verbatim>\<open>ValueError\<close> and exit status 1.\<close>

theorem record_error_counterexample:
  "shlex_split (''echo '' @ [CHR 0x27] @ ''a b'') = Inl (ValueError ''No closing quotation'') \<and>
   snd (process_command init_command_data (''echo '' @ [CHR 0x27] @ ''a b'') datetime_max) = [] \<and>
   main (example_env (\<lambda>p. True) ['':0;1700000000;ls -l'', '':0;oops;pwd'', '':0;1700000001;ls''])
     (Some 2023) ''zsh'' =
     ([], Some (ValueError (''invalid literal for int() with base 10: '' @ [CHR 0x27] @ ''oops'' @ [CHR 0x27]))) \<and>
   exit_status
     (main (example_env (\<lambda>p. True) ['':0;1700000000;ls -l'', '':0;oops;pwd'', '':0;1700000001;ls''])
        (Some 2023) ''zsh'') = 1 \<and>
   total_commands (fst (analyze_commands
     (example_env (\<lambda>p. True) ['':0;1700000000;ls -l'', '':0;oops;pwd'', '':0;1700000001;ls''])
     0 2023 init_command_data ''zsh'')) = 1"
  by code_simp

subsection \<open>The tokens of a command\<close>

lemma read_token_plain_word:
  "list_all shlex_plain cs \<Longrightarrow>
   read_token St_Word esc quoted tok cs = emit (tok @ cs) quoted St_None []"
  by (induction cs arbitrary: tok) (auto simp: shlex_plain_def)

lemma shlex_split_plain:
  assumes "command \<noteq> []" and "list_all shlex_plain command"
  shows "shlex_split command = Inr [command]"
proof -
  from assms obtain c cs where command: "command = c # cs" by (cases command) auto
  with assms(2) have c: "shlex_plain c" and cs: "list_all shlex_plain cs" by simp_all
  from c have "read_token St_Space St_Space False [] (c # cs) =
               read_token St_Word St_Space False [c] cs"
    by (simp add: shlex_plain_def)
  also have "\<dots> = Inr (Some (c # cs), St_None, [])"
    using cs by (simp add: read_token_plain_word emit_def)
  finally have first: "read_token St_Space St_Space False [] command =
      Inr (Some command, St_None, [])"
    by (simp add: command)
  have "shlex_tokens St_None [] = Inr []"
    by (simp add: shlex_tokens.simps [of St_None "[]"] emit_def)
  with first show ?thesis
    by (simp add: shlex_split_def shlex_tokens.simps [of St_Space command])
qed

lemma other_space_plain: "py_isspace c \<Longrightarrow> \<not> shlex_whitespace c \<Longrightarrow> shlex_plain c"
  by (auto simp: shlex_plain_def py_isspace_def shlex_quotes_def shlex_escape_def)

lemma split_ws_chars:
  "t \<in> set (split_ws cur s) \<Longrightarrow> set t \<subseteq> set cur \<union> set s"
proof (induction s arbitrary: cur)
  case Nil
  then show ?case by (auto split: if_splits)
next
  case (Cons a s)
  show ?case
  proof (cases "py_isspace a")
    case True
    with Cons.prems have "t = cur \<or> t \<in> set (split_ws [] s)"
      by (auto split: if_splits)
    then show ?thesis using Cons.IH [of "[]"] by auto
  next
    case False
    with Cons.prems have "t \<in> set (split_ws (cur @ [a]) s)" by simp
    from Cons.IH [OF this] show ?thesis by auto
  qed
qed

lemma fallback_tokens_quote_free:
  "list_all (\<lambda>t. list_all (\<lambda>c. \<not> shlex_quotes c) t) (py_split (re_sub_quotes command))"
proof -
  have "\<not> shlex_quotes c" if "t \<in> set (py_split (re_sub_quotes command))" and "c \<in> set t" for t c
  proof -
    from that have "c \<in> set (takeWhile (\<lambda>c. \<not> shlex_quotes c) command)"
      using split_ws_chars [of t "[]" "re_sub_quotes command"]
      by (auto simp: py_split_def re_sub_quotes_prefix)
    then show ?thesis by (rule set_takeWhileD [THEN conjunct2])
  qed
  then show ?thesis by (auto simp: list_all_iff)
qed


text \<open>
  C7 (the tokenizer), as the code has it.  For every command string
  \<^verbatim>\<open>_safe_split_command\<close> returns a list of tokens, which may be empty.  When
  \<^verbatim>\<open>shlex.split\<close> raises (an unterminated quotation, a backslash at the end) the
  result is the fallback: the matches of the quote pattern are deleted and what is
  left is split at white space, so that no quote character is left in a token.  A
  command that is empty or made only of space, tab, carriage return and line feed, the
  white space of \<^verbatim>\<open>shlex\<close>, gives the empty list, and \<^verbatim>\<open>_process_command\<close> then
  returns the aggregate state as it was and prints nothing.  A command that is not
  empty and made only of the other characters of \<^verbatim>\<open>str.isspace\<close> (vertical tab,
  form feed, U+001C to U+001F, U+0085, U+00A0) is one token, and the record is counted.
  Both parsers hand the tokenizer text that went through \<^verbatim>\<open>strip()\<close>: of a text made
  only of \<^verbatim>\<open>str.isspace\<close> characters nothing is left, and no token is found.
\<close>

theorem safe_split_command_never_raises:
  "(\<exists>parts. safe_split_command command = Inr parts) \<and>
   (\<forall>e. shlex_split command = Inl e \<longrightarrow>
        safe_split_command command = Inr (py_split (re_sub_quotes command)) \<and>
        list_all (\<lambda>t. list_all (\<lambda>c. \<not> shlex_quotes c) t) (py_split (re_sub_quotes command))) \<and>
   (list_all shlex_whitespace command \<longrightarrow>
      safe_split_command command = Inr [] \<and>
      process_command cd command timestamp = (cd, [])) \<and>
   (command \<noteq> [] \<and> list_all (\<lambda>c. py_isspace c \<and> \<not> shlex_whitespace c) command \<longrightarrow>
      safe_split_command command = Inr [command] \<and>
      total_commands (fst (process_command cd command timestamp)) = total_commands cd + 1) \<and>
   (list_all py_isspace command \<longrightarrow>
      py_strip command = [] \<and> safe_split_command (py_strip command) = Inr [])"
proof (intro conjI allI impI)
  show "\<exists>parts. safe_split_command command = Inr parts"
    by (rule safe_split_command_returns)
next
  fix e
  assume "shlex_split command = Inl e"
  then show "safe_split_command command = Inr (py_split (re_sub_quotes command))"
    by (rule safe_split_command_fallback)
next
  show "list_all (\<lambda>t. list_all (\<lambda>c. \<not> shlex_quotes c) t) (py_split (re_sub_quotes command))"
    by (rule fallback_tokens_quote_free)
next
  assume "list_all shlex_whitespace command"
  then have "shlex_split command = Inr []"
    by (rule shlex_split_whitespace)
  then show empty: "safe_split_command command = Inr []"
    by (simp add: safe_split_command_def)
  then show "process_command cd command timestamp = (cd, [])"
    by (simp add: process_command_def)
next
  assume a: "command \<noteq> [] \<and> list_all (\<lambda>c. py_isspace c \<and> \<not> shlex_whitespace c) command"
  then have "list_all shlex_plain command"
    by (auto simp: list_all_iff other_space_plain)
  with a have "shlex_split command = Inr [command]"
    by (simp add: shlex_split_plain)
  then show one: "safe_split_command command = Inr [command]"
    by (simp add: safe_split_command_def)
  then show "total_commands (fst (process_command cd command timestamp)) = total_commands cd + 1"
    by (simp add: process_command_total_commands)
next
  assume "list_all py_isspace command"
  then show stripped: "py_strip command = []"
    by (rule py_strip_all_space)
  have "shlex_split [] = Inr []"
    by (rule shlex_split_whitespace) simp
  then show "safe_split_command (py_strip command) = Inr []"
    by (simp add: stripped safe_split_command_def)
qed

theorem safe_split_command_never_raises_witness:
  "shlex_split (''echo '' @ [CHR 0x27] @ ''a b'') = Inl (ValueError ''No closing quotation'') \<and>
   safe_split_command (''echo '' @ [CHR 0x27] @ ''a b'') = Inr [''echo''] \<and>
   list_all shlex_whitespace [CHR '' '', CHR 0x09] \<and>
   safe_split_command [CHR '' '', CHR 0x09] = Inr [] \<and>
   process_command init_command_data [CHR '' '', CHR 0x09] datetime_max = (init_command_data, []) \<and>
   list_all (\<lambda>c. py_isspace c \<and> \<not> shlex_whitespace c) [CHR 0x0B, CHR 0xA0] \<and>
   safe_split_command [CHR 0x0B, CHR 0xA0] = Inr [[CHR 0x0B, CHR 0xA0]]"
proof -
  have raises: "shlex_split (''echo '' @ [CHR 0x27] @ ''a b'') = Inl (ValueError ''No closing quotation'')"
    by code_simp
  have fallback: "py_split (re_sub_quotes (''echo '' @ [CHR 0x27] @ ''a b'')) = [''echo'']"
    by code_simp
  have blank: "list_all shlex_whitespace [CHR '' '', CHR 0x09]"
    by (simp add: shlex_whitespace_def)
  have other: "list_all (\<lambda>c. py_isspace c \<and> \<not> shlex_whitespace c) [CHR 0x0B, CHR 0xA0]"
    by (simp add: shlex_whitespace_def py_isspace_def)
  from safe_split_command_never_raises [of "''echo '' @ [CHR 0x27] @ ''a b''"] raises
  have "safe_split_command (''echo '' @ [CHR 0x27] @ ''a b'') =
        Inr (py_split (re_sub_quotes (''echo '' @ [CHR 0x27] @ ''a b'')))"
    by blast
  with fallback
  have quoted: "safe_split_command (''echo '' @ [CHR 0x27] @ ''a b'') = Inr [''echo'']"
    by (simp only:)
  from safe_split_command_never_raises
      [of "[CHR '' '', CHR 0x09]" init_command_data datetime_max] blank
  have spaces: "safe_split_command [CHR '' '', CHR 0x09] = Inr [] \<and>
        process_command init_command_data [CHR '' '', CHR 0x09] datetime_max = (init_command_data, [])"
    by blast
  from safe_split_command_never_raises [of "[CHR 0x0B, CHR 0xA0]"] other
  have "safe_split_command [CHR 0x0B, CHR 0xA0] = Inr [[CHR 0x0B, CHR 0xA0]]"
    by blast
  with quoted spaces show ?thesis using raises blank other by blast
qed

text \<open>A form feed is white space for \<^verbatim>\<open>str.isspace\<close> and a word for \<^verbatim>\<open>shlex\<close>: the
  command that is one form feed gives one token and is counted.  And the fallback
  deletes more than the unterminated fragment: of \<^verbatim>\<open>"my prog" --flag 'x\<close> no token is
  left, the terminated quotation and the flag go with the fragment \<^verbatim>\<open>'x\<close>.\<close>

theorem tokenizer_white_space_counterexample:
  "list_all py_isspace [CHR 0x0C] \<and>
   safe_split_command [CHR 0x0C] = Inr [[CHR 0x0C]] \<and>
   total_commands (fst (process_command init_command_data [CHR 0x0C] datetime_max)) = 1 \<and>
   shlex_split ([CHR 0x22] @ ''my prog'' @ [CHR 0x22] @ '' --flag '' @ [CHR 0x27] @ ''x'') =
     Inl (ValueError ''No closing quotation'') \<and>
   safe_split_command ([CHR 0x22] @ ''my prog'' @ [CHR 0x22] @ '' --flag '' @ [CHR 0x27] @ ''x'') =
     Inr []"
  by code_simp

end
